theory Spec2Isabelle
  imports Main
begin

section \<open>Values shared by the chain worker and the API server\<close>

text \<open>
  Timestamps are the ISO strings of \<^verbatim>\<open>new Date().toISOString()\<close>. The two errors are
  the ones the modelled functions can end with: a rejected promise of the database or of the
  chain RPC client, and the \<^verbatim>\<open>Error("User not found while adjusting credits.")\<close> of
  \<^verbatim>\<open>grantCredits\<close>.
\<close>

type_synonym timestamp = string

datatype error = IoError | UserNotFound

subsection \<open>JavaScript numbers that hold integers\<close>

definition MAX_SAFE_INTEGER :: int where
  "MAX_SAFE_INTEGER = 2 ^ 53 - 1"

fun bitLength :: "nat \<Rightarrow> nat" where
  "bitLength n = (if n = 0 then 0 else Suc (bitLength (n div 2)))"

declare bitLength.simps [simp del]

text \<open>
  \<^verbatim>\<open>Number(b)\<close> for a bigint \<open>b\<close> is the double nearest to \<open>b\<close>, ties to the even
  significand. A magnitude of at most 53 bits is kept as it is; a longer one keeps its 53
  leading bits, rounded. (From \<open>2 ^ 1024\<close> on JavaScript answers \<open>Infinity\<close>; block heights
  of that size are outside every statement below.)
\<close>

definition roundToDouble :: "nat \<Rightarrow> nat" where
  "roundToDouble x =
     (let n = bitLength x in
      if n \<le> 53 then x
      else
        (let e = n - 53; q = x div 2 ^ e; r = x mod 2 ^ e; half = 2 ^ (e - 1) in
         (if half < r \<or> (r = half \<and> odd q) then q + 1 else q) * 2 ^ e))"

definition NumberOfBigInt :: "int \<Rightarrow> int" where
  "NumberOfBigInt b = (if b < 0 then - int (roundToDouble (nat (- b))) else int (roundToDouble (nat b)))"

section \<open>The tables\<close>

text \<open>
  The \<^verbatim>\<open>integer(...)\<close> columns of the schema are PostgreSQL's four-byte \<open>integer\<close>. The
  database rejects a statement that binds a value outside that range to such a column, or
  whose arithmetic on such a column leaves it.
\<close>

definition int4 :: "int \<Rightarrow> bool" where
  "int4 n \<longleftrightarrow> - (2 ^ 31) \<le> n \<and> n < 2 ^ 31"

datatype deposit_status = Pending | Confirmed

datatype payment_status = PaymentPending | Succeeded | Failed

datatype payment_provider = Stripe | Usdt

datatype token_symbol = USDT | USDC

text \<open>
  \<^verbatim>\<open>chain_deposits\<close>: the primary key \<open>id\<close> is the text \<^verbatim>\<open>`${txHash}:${logIndex}`\<close>, kept here
  as the pair it renders; \<open>amountRaw\<close> is the decimal text of a bigint, kept as the integer;
  \<open>amountDecimal\<close> is \<^verbatim>\<open>formatUnits(amountRaw, decimals)\<close>, kept as its two arguments.
  \<open>chainId\<close>, \<open>logIndex\<close>, \<open>blockNumber\<close> and \<open>confirmations\<close> are \<open>integer\<close> columns.
\<close>

record deposit =
  dep_id :: "string \<times> int"
  dep_chainId :: int
  dep_network :: string
  dep_tokenSymbol :: token_symbol
  dep_tokenAddress :: string
  dep_fromAddress :: string
  dep_toAddress :: string
  dep_txHash :: string
  dep_logIndex :: int
  dep_blockNumber :: int
  dep_amountRaw :: int
  dep_amountDecimal :: "int \<times> nat"
  dep_confirmations :: int
  dep_status :: deposit_status
  dep_observedAt :: timestamp
  dep_updatedAt :: timestamp

definition deposit_int4 :: "deposit \<Rightarrow> bool" where
  "deposit_int4 r \<longleftrightarrow>
     int4 (dep_chainId r) \<and> int4 (dep_logIndex r) \<and> int4 (dep_blockNumber r) \<and>
     int4 (dep_confirmations r)"

text \<open>\<^verbatim>\<open>worker_state\<close>: one row per key; the value is the decimal text of a bigint.\<close>

record worker_state =
  ws_value :: int
  ws_updatedAt :: timestamp

text \<open>
  \<^verbatim>\<open>users\<close>: the columns \<open>name\<close>, \<open>email\<close>, \<open>passwordHash\<close> and \<open>createdAt\<close> are written by
  no function modelled here and are left out. \<open>apiCredits\<close> is an \<open>integer\<close> column.
\<close>

record user =
  user_id :: string
  apiCredits :: int
  user_updatedAt :: timestamp

text \<open>The webhook payloads, as the handlers receive them.\<close>

datatype webhook_status = StatusPending | StatusConfirmed | StatusFailed

record usdt_payload =
  transactionId :: string
  up_userId :: string
  up_amountMinor :: int
  up_currency :: string
  up_network :: string
  up_status :: webhook_status
  up_confirmations :: int

text \<open>
  A checkout session and a payment intent carry their metadata parsed: \<open>userId\<close> is \<open>None\<close>
  when the metadata has none, and \<open>creditsToBuy\<close> is \<^verbatim>\<open>Number(metadata.creditsToBuy ?? "0")\<close>,
  \<open>None\<close> when that is not finite.
\<close>

record checkout_session =
  cs_id :: string
  cs_userId :: "string option"
  cs_creditsToBuy :: "int option"
  cs_amount_total :: "int option"
  cs_currency :: "string option"

record payment_intent =
  pi_id :: string
  pi_userId :: "string option"
  pi_creditsToBuy :: "int option"
  pi_amount_received :: int
  pi_amount :: int
  pi_currency :: string

datatype stripe_event =
    CheckoutSessionCompleted checkout_session
  | PaymentIntentSucceeded payment_intent
  | OtherStripeEvent string

text \<open>\<^verbatim>\<open>JSON.stringify\<close> of a payload is kept as the value it renders.\<close>

datatype json =
    JsonSession checkout_session
  | JsonIntent payment_intent
  | JsonUsdt usdt_payload
  | JsonSessionId string
  | JsonPaymentIntentId string

record payment =
  pay_id :: string
  pay_userId :: string
  pay_provider :: payment_provider
  pay_providerPaymentId :: string
  pay_status :: payment_status
  pay_amountMinor :: int
  pay_currency :: string
  creditsPurchased :: int
  rawPayloadJson :: json
  pay_createdAt :: timestamp
  pay_updatedAt :: timestamp

definition payment_int4 :: "payment \<Rightarrow> bool" where
  "payment_int4 p \<longleftrightarrow> int4 (pay_amountMinor p) \<and> int4 (creditsPurchased p)"

record ledger_entry =
  led_id :: string
  led_userId :: string
  deltaCredits :: int
  balanceAfter :: int
  reason :: string
  referenceId :: "string option"
  metadataJson :: "json option"
  led_createdAt :: timestamp

definition ledger_int4 :: "ledger_entry \<Rightarrow> bool" where
  "ledger_int4 e \<longleftrightarrow> int4 (deltaCredits e) \<and> int4 (balanceAfter e)"

section \<open>The world: the database, the process state and the environment\<close>

text \<open>
  Both processes use one database. \<open>isPolling\<close> is the worker's reentrancy flag. The
  environment is what the code cannot decide: \<open>clock\<close> and \<open>uuidSource\<close> answer the
  successive reads of the time and of \<^verbatim>\<open>crypto.randomUUID()\<close>, and \<open>faults\<close> says how many
  awaited calls (database statements, RPC requests) succeed before one rejects for a reason
  that is not in the values of the call (a lost connection, an error of the node, a
  generated id that collides with a stored one); \<open>None\<close> is a run in which none does. A
  statement that rejects changes nothing, and no function modelled here opens a transaction.
\<close>

record world =
  usersTable :: "user list"
  paymentsTable :: "payment list"
  creditLedgerTable :: "ledger_entry list"
  chainDepositsTable :: "deposit list"
  workerStateTable :: "((int \<times> string) \<times> worker_state) list"
  isPolling :: bool
  faults :: "nat option"
  clock :: "nat \<Rightarrow> timestamp"
  clockReads :: nat
  uuidSource :: "nat \<Rightarrow> string"
  uuidReads :: nat

type_synonym 'a io = "world \<Rightarrow> (error + 'a) \<times> world"

definition io_return :: "'a \<Rightarrow> 'a io" where
  "io_return a w = (Inr a, w)"

definition io_throw :: "error \<Rightarrow> 'a io" where
  "io_throw e w = (Inl e, w)"

definition io_bind :: "'a io \<Rightarrow> ('a \<Rightarrow> 'b io) \<Rightarrow> 'b io" where
  "io_bind m f w = (case m w of (Inl e, w') \<Rightarrow> (Inl e, w') | (Inr a, w') \<Rightarrow> f a w')"

definition io_lift :: "(world \<Rightarrow> 'a \<times> world) \<Rightarrow> 'a io" where
  "io_lift f w = (case f w of (a, w') \<Rightarrow> (Inr a, w'))"

definition await :: "(world \<Rightarrow> 'a \<times> world) \<Rightarrow> 'a io" where
  "await stmt w =
     (case faults w of
        None \<Rightarrow> io_lift stmt w
      | Some 0 \<Rightarrow> (Inl IoError, w)
      | Some (Suc k) \<Rightarrow> io_lift stmt (w\<lparr>faults := Some k\<rparr>))"

text \<open>
  A statement with values for \<open>integer\<close> columns is awaited like any other call, and the
  database rejects it, whatever the environment, when a value does not fit.
\<close>

definition awaitIf :: "(world \<Rightarrow> bool) \<Rightarrow> (world \<Rightarrow> 'a \<times> world) \<Rightarrow> 'a io" where
  "awaitIf accepted stmt w = (if accepted w then await stmt w else (Inl IoError, w))"

primrec io_foreach :: "('a \<Rightarrow> unit io) \<Rightarrow> 'a list \<Rightarrow> unit io" where
  "io_foreach f [] = io_return ()"
| "io_foreach f (x # xs) = io_bind (f x) (\<lambda>_. io_foreach f xs)"

definition getIsoTimestamp :: "world \<Rightarrow> timestamp \<times> world" where
  "getIsoTimestamp w = (clock w (clockReads w), w\<lparr>clockReads := Suc (clockReads w)\<rparr>)"

definition randomUUID :: "world \<Rightarrow> string \<times> world" where
  "randomUUID w = (uuidSource w (uuidReads w), w\<lparr>uuidReads := Suc (uuidReads w)\<rparr>)"

section \<open>The chain worker\<close>

record tracked_token =
  symbol :: token_symbol
  address :: string
  decimals :: nat

text \<open>
  The worker's configuration. \<open>minConfirmations\<close> is read as a number; it is an integer here,
  as its default (50) is.
\<close>

record config =
  chainId :: int
  receiverAddress :: string
  polygonUsdtAddress :: "string option"
  polygonUsdcAddress :: "string option"
  minConfirmations :: int
  startBlock :: "int option"

definition trackedTokens :: "config \<Rightarrow> tracked_token list" where
  "trackedTokens cfg =
     (case polygonUsdtAddress cfg of
        Some a \<Rightarrow> [\<lparr>symbol = USDT, address = a, decimals = 6\<rparr>] | None \<Rightarrow> []) @
     (case polygonUsdcAddress cfg of
        Some a \<Rightarrow> [\<lparr>symbol = USDC, address = a, decimals = 6\<rparr>] | None \<Rightarrow> [])"

text \<open>
  The cursor's key is the text
  \<^verbatim>\<open>`chain-worker:last-scanned-block:${chainId}:${receiverAddress.toLowerCase()}`\<close>,
  kept as the pair it is built from.
\<close>

definition WORKER_CURSOR_KEY :: "config \<Rightarrow> int \<times> string" where
  "WORKER_CURSOR_KEY cfg = (chainId cfg, receiverAddress cfg)"

text \<open>What the RPC node answers during one cycle.\<close>

record transfer_log =
  log_transactionHash :: string
  log_logIndex :: int
  log_blockNumber :: int
  log_from :: string
  log_to :: string
  log_value :: int

record rpc =
  getBlockNumber :: int
  getLogs :: "string \<Rightarrow> int \<Rightarrow> int \<Rightarrow> string \<Rightarrow> transfer_log list"

subsection \<open>Statements on the database\<close>

text \<open>
  Each statement is one awaited call. What it does to the tables when the database accepts
  it is the function under \<open>await\<close>; the statements with values for \<open>integer\<close> columns
  say when they are accepted.
\<close>

definition selectWorkerState :: "int \<times> string \<Rightarrow> worker_state option io" where
  "selectWorkerState k = await (\<lambda>w. (map_of (workerStateTable w) k, w))"

definition upsertByKey ::
  "int \<times> string \<Rightarrow> worker_state \<Rightarrow> ((int \<times> string) \<times> worker_state) list \<Rightarrow>
   ((int \<times> string) \<times> worker_state) list" where
  "upsertByKey k row t =
     (if k \<in> fst ` set t
      then map (\<lambda>(k', v). if k' = k then (k', row) else (k', v)) t
      else t @ [(k, row)])"

definition upsertWorkerState :: "int \<times> string \<Rightarrow> worker_state \<Rightarrow> unit io" where
  "upsertWorkerState k row =
     await (\<lambda>w. ((), w\<lparr>workerStateTable := upsertByKey k row (workerStateTable w)\<rparr>))"

definition conflicts :: "deposit \<Rightarrow> deposit \<Rightarrow> bool" where
  "conflicts row r \<longleftrightarrow> dep_txHash r = dep_txHash row \<and> dep_logIndex r = dep_logIndex row"

definition onConflictDoUpdate :: "deposit \<Rightarrow> deposit list \<Rightarrow> deposit list" where
  "onConflictDoUpdate row t =
     (if \<exists>r \<in> set t. conflicts row r
      then map (\<lambda>r. if conflicts row r
                     then r\<lparr>dep_confirmations := dep_confirmations row,
                            dep_status := dep_status row,
                            dep_updatedAt := dep_updatedAt row\<rparr>
                     else r) t
      else t @ [row])"

definition insertDepositOnConflictUpdate :: "deposit \<Rightarrow> unit io" where
  "insertDepositOnConflictUpdate row =
     awaitIf (\<lambda>w. deposit_int4 row)
       (\<lambda>w. ((), w\<lparr>chainDepositsTable := onConflictDoUpdate row (chainDepositsTable w)\<rparr>))"

definition selectPendingDeposits :: "int \<Rightarrow> deposit list io" where
  "selectPendingDeposits latest =
     awaitIf (\<lambda>w. int4 latest)
       (\<lambda>w. (filter (\<lambda>r. dep_status r = Pending \<and> dep_blockNumber r \<le> latest)
                (chainDepositsTable w), w))"

definition setWhereId ::
  "string \<times> int \<Rightarrow> int \<Rightarrow> deposit_status \<Rightarrow> timestamp \<Rightarrow> deposit list \<Rightarrow> deposit list" where
  "setWhereId i confirmations nextStatus now t =
     map (\<lambda>r. if dep_id r = i
               then r\<lparr>dep_confirmations := confirmations, dep_status := nextStatus,
                      dep_updatedAt := now\<rparr>
               else r) t"

definition updateDepositById ::
  "string \<times> int \<Rightarrow> int \<Rightarrow> deposit_status \<Rightarrow> timestamp \<Rightarrow> unit io" where
  "updateDepositById i confirmations nextStatus now =
     awaitIf (\<lambda>w. int4 confirmations)
       (\<lambda>w. ((), w\<lparr>chainDepositsTable :=
                    setWhereId i confirmations nextStatus now (chainDepositsTable w)\<rparr>))"

subsection \<open>The worker's functions\<close>

definition getCursorBlock :: "config \<Rightarrow> int option io" where
  "getCursorBlock cfg =
     io_bind (selectWorkerState (WORKER_CURSOR_KEY cfg))
       (\<lambda>state. io_return (case state of None \<Rightarrow> None | Some s \<Rightarrow> Some (ws_value s)))"

definition setCursorBlock :: "config \<Rightarrow> int \<Rightarrow> unit io" where
  "setCursorBlock cfg blockNumber =
     io_bind (io_lift getIsoTimestamp)
       (\<lambda>now. upsertWorkerState (WORKER_CURSOR_KEY cfg)
                 \<lparr>ws_value = blockNumber, ws_updatedAt = now\<rparr>)"

record upsert_input =
  in_token :: tracked_token
  in_txHash :: string
  in_logIndex :: int
  in_blockNumber :: int
  in_fromAddress :: string
  in_toAddress :: string
  in_amountRaw :: int
  in_latestBlock :: int

definition confirmationsBigInt :: "int \<Rightarrow> int \<Rightarrow> int" where
  "confirmationsBigInt latestBlock blockNumber =
     (if latestBlock \<ge> blockNumber then latestBlock - blockNumber + 1 else 0)"

definition statusFor :: "config \<Rightarrow> int \<Rightarrow> deposit_status" where
  "statusFor cfg confirmations =
     (if confirmations \<ge> minConfirmations cfg then Confirmed else Pending)"

definition upsertConfirmations :: "upsert_input \<Rightarrow> int" where
  "upsertConfirmations inp =
     (let c = confirmationsBigInt (in_latestBlock inp) (in_blockNumber inp) in
      NumberOfBigInt (if c > MAX_SAFE_INTEGER then MAX_SAFE_INTEGER else c))"

definition depositRow :: "config \<Rightarrow> upsert_input \<Rightarrow> timestamp \<Rightarrow> deposit" where
  "depositRow cfg inp now =
     (let confirmations = upsertConfirmations inp;
          status = statusFor cfg confirmations;
          uniqueEventId = (in_txHash inp, in_logIndex inp)
      in \<lparr>dep_id = uniqueEventId,
          dep_chainId = chainId cfg,
          dep_network = ''POLYGON'',
          dep_tokenSymbol = symbol (in_token inp),
          dep_tokenAddress = address (in_token inp),
          dep_fromAddress = in_fromAddress inp,
          dep_toAddress = in_toAddress inp,
          dep_txHash = in_txHash inp,
          dep_logIndex = in_logIndex inp,
          dep_blockNumber = NumberOfBigInt (in_blockNumber inp),
          dep_amountRaw = in_amountRaw inp,
          dep_amountDecimal = (in_amountRaw inp, decimals (in_token inp)),
          dep_confirmations = confirmations,
          dep_status = status,
          dep_observedAt = now,
          dep_updatedAt = now\<rparr>)"

definition upsertDeposit :: "config \<Rightarrow> upsert_input \<Rightarrow> unit io" where
  "upsertDeposit cfg inp =
     io_bind (io_lift getIsoTimestamp)
       (\<lambda>now. insertDepositOnConflictUpdate (depositRow cfg inp now))"

definition refreshOne :: "config \<Rightarrow> int \<Rightarrow> timestamp \<Rightarrow> deposit \<Rightarrow> unit io" where
  "refreshOne cfg latestBlock now pendingDeposit =
     (let blockNumber = dep_blockNumber pendingDeposit;
          confirmations = NumberOfBigInt (latestBlock - blockNumber + 1);
          nextStatus = statusFor cfg confirmations
      in if confirmations = dep_confirmations pendingDeposit \<and> nextStatus = dep_status pendingDeposit
         then io_return ()
         else updateDepositById (dep_id pendingDeposit) confirmations nextStatus now)"

definition refreshPendingConfirmations :: "config \<Rightarrow> int \<Rightarrow> unit io" where
  "refreshPendingConfirmations cfg latestBlock =
     io_bind (selectPendingDeposits (NumberOfBigInt latestBlock))
       (\<lambda>pendingDeposits.
          io_bind (io_lift getIsoTimestamp)
            (\<lambda>now. io_foreach (refreshOne cfg latestBlock now) pendingDeposits))"

definition inputOfLog :: "tracked_token \<Rightarrow> int \<Rightarrow> transfer_log \<Rightarrow> upsert_input" where
  "inputOfLog token latestBlock decodedLog =
     \<lparr>in_token = token,
      in_txHash = log_transactionHash decodedLog,
      in_logIndex = log_logIndex decodedLog,
      in_blockNumber = log_blockNumber decodedLog,
      in_fromAddress = log_from decodedLog,
      in_toAddress = log_to decodedLog,
      in_amountRaw = log_value decodedLog,
      in_latestBlock = latestBlock\<rparr>"

definition scanToken :: "config \<Rightarrow> rpc \<Rightarrow> int \<Rightarrow> int \<Rightarrow> tracked_token \<Rightarrow> unit io" where
  "scanToken cfg node fromBlock latestBlock token =
     io_bind (await (\<lambda>w. (getLogs node (address token) fromBlock latestBlock (receiverAddress cfg), w)))
       (\<lambda>logs. io_foreach (\<lambda>l. upsertDeposit cfg (inputOfLog token latestBlock l)) logs)"

definition fromBlockOf :: "config \<Rightarrow> int option \<Rightarrow> int \<Rightarrow> int" where
  "fromBlockOf cfg currentCursor latestBlock =
     (case currentCursor of
        Some c \<Rightarrow> c + 1
      | None \<Rightarrow> (case startBlock cfg of Some b \<Rightarrow> b | None \<Rightarrow> latestBlock))"

definition pollOnce :: "config \<Rightarrow> rpc \<Rightarrow> unit io" where
  "pollOnce cfg node =
     io_bind (await (\<lambda>w. (getBlockNumber node, w)))
       (\<lambda>latestBlock.
          io_bind (getCursorBlock cfg)
            (\<lambda>currentCursor.
               let fromBlock = fromBlockOf cfg currentCursor latestBlock in
               if fromBlock > latestBlock then refreshPendingConfirmations cfg latestBlock
               else
                 io_bind (io_foreach (scanToken cfg node fromBlock latestBlock) (trackedTokens cfg))
                   (\<lambda>_. io_bind (setCursorBlock cfg latestBlock)
                      (\<lambda>_. refreshPendingConfirmations cfg latestBlock))))"

definition runPollCycle :: "config \<Rightarrow> rpc \<Rightarrow> world \<Rightarrow> world" where
  "runPollCycle cfg node w =
     (if isPolling w then w
      else (case pollOnce cfg node (w\<lparr>isPolling := True\<rparr>) of
              (_, w') \<Rightarrow> w'\<lparr>isPolling := False\<rparr>))"

section \<open>The API server: payments and the credit ledger\<close>

text \<open>Of the server's environment only \<^verbatim>\<open>USDT_CONFIRMATIONS_REQUIRED\<close> is read here.\<close>

record server_env =
  usdtConfirmationsRequired :: int

subsection \<open>Statements on the database\<close>

definition addCredits :: "string \<Rightarrow> int \<Rightarrow> timestamp \<Rightarrow> user \<Rightarrow> user" where
  "addCredits uid delta now u =
     (if user_id u = uid then u\<lparr>apiCredits := apiCredits u + delta, user_updatedAt := now\<rparr> else u)"

text \<open>
  \<^verbatim>\<open>UPDATE users SET api_credits = api_credits + $1 ... WHERE id = $2 RETURNING *\<close>: the
  parameter is an \<open>integer\<close>, and so is the sum in every row the statement updates.
\<close>

definition updateUserCreditsReturning :: "string \<Rightarrow> int \<Rightarrow> timestamp \<Rightarrow> user list io" where
  "updateUserCreditsReturning uid delta now =
     awaitIf (\<lambda>w. int4 delta \<and>
                  list_all (\<lambda>u. int4 (apiCredits u + delta))
                    (filter (\<lambda>u. user_id u = uid) (usersTable w)))
       (\<lambda>w. (filter (\<lambda>u. user_id u = uid) (map (addCredits uid delta now) (usersTable w)),
             w\<lparr>usersTable := map (addCredits uid delta now) (usersTable w)\<rparr>))"

definition insertCreditLedger :: "ledger_entry \<Rightarrow> unit io" where
  "insertCreditLedger row =
     awaitIf (\<lambda>w. ledger_int4 row)
       (\<lambda>w. ((), w\<lparr>creditLedgerTable := creditLedgerTable w @ [row]\<rparr>))"

definition selectPaymentByProviderId :: "string \<Rightarrow> payment option io" where
  "selectPaymentByProviderId ppid =
     await (\<lambda>w. (find (\<lambda>p. pay_providerPaymentId p = ppid) (paymentsTable w), w))"

definition insertPayment :: "payment \<Rightarrow> unit io" where
  "insertPayment row =
     awaitIf (\<lambda>w. payment_int4 row)
       (\<lambda>w. ((), w\<lparr>paymentsTable := paymentsTable w @ [row]\<rparr>))"

definition setPayment :: "string \<Rightarrow> payment_status \<Rightarrow> json \<Rightarrow> timestamp \<Rightarrow> payment \<Rightarrow> payment" where
  "setPayment i status raw now p =
     (if pay_id p = i
      then p\<lparr>pay_status := status, rawPayloadJson := raw, pay_updatedAt := now\<rparr>
      else p)"

definition updatePaymentById :: "string \<Rightarrow> payment_status \<Rightarrow> json \<Rightarrow> timestamp \<Rightarrow> unit io" where
  "updatePaymentById i status raw now =
     await (\<lambda>w. ((), w\<lparr>paymentsTable := map (setPayment i status raw now) (paymentsTable w)\<rparr>))"

subsection \<open>The credit grant\<close>

text \<open>\<^verbatim>\<open>crypto.randomUUID().replaceAll("-", "").slice(0, 20)\<close>\<close>

definition shortId :: "string \<Rightarrow> string" where
  "shortId uuid = take 20 (filter (\<lambda>c. c \<noteq> CHR ''-'') uuid)"

record grant_input =
  gi_userId :: string
  gi_deltaCredits :: int
  gi_reason :: string
  gi_referenceId :: "string option"
  gi_metadataJson :: "json option"

definition grantCredits :: "grant_input \<Rightarrow> int io" where
  "grantCredits inp =
     io_bind (io_lift getIsoTimestamp)
       (\<lambda>now.
          io_bind (updateUserCreditsReturning (gi_userId inp) (gi_deltaCredits inp) now)
            (\<lambda>rows.
               case rows of
                 [] \<Rightarrow> io_throw UserNotFound
               | updatedUser # _ \<Rightarrow>
                   io_bind (io_lift randomUUID)
                     (\<lambda>uuid.
                        io_bind (insertCreditLedger
                            \<lparr>led_id = ''cred_'' @ shortId uuid,
                             led_userId = gi_userId inp,
                             deltaCredits = gi_deltaCredits inp,
                             balanceAfter = apiCredits updatedUser,
                             reason = gi_reason inp,
                             referenceId = gi_referenceId inp,
                             metadataJson = gi_metadataJson inp,
                             led_createdAt = now\<rparr>)
                          (\<lambda>_. io_return (apiCredits updatedUser)))))"

subsection \<open>The webhook handlers\<close>

definition settleStripe ::
  "string \<Rightarrow> int \<Rightarrow> string \<Rightarrow> int \<Rightarrow> string \<Rightarrow> json \<Rightarrow> string \<Rightarrow> json \<Rightarrow> unit io" where
  "settleStripe userId creditsToBuy providerPaymentId amount cur raw why meta =
     io_bind (io_lift getIsoTimestamp)
       (\<lambda>now.
          io_bind (selectPaymentByProviderId providerPaymentId)
            (\<lambda>existingPayment.
               case existingPayment of
                 Some _ \<Rightarrow> io_return ()
               | None \<Rightarrow>
                   io_bind (io_lift randomUUID)
                     (\<lambda>uuid.
                        io_bind (insertPayment
                            \<lparr>pay_id = ''pay_'' @ shortId uuid,
                             pay_userId = userId,
                             pay_provider = Stripe,
                             pay_providerPaymentId = providerPaymentId,
                             pay_status = Succeeded,
                             pay_amountMinor = amount,
                             pay_currency = cur,
                             creditsPurchased = creditsToBuy,
                             rawPayloadJson = raw,
                             pay_createdAt = now,
                             pay_updatedAt = now\<rparr>)
                          (\<lambda>_.
                             io_bind (grantCredits
                                 \<lparr>gi_userId = userId,
                                  gi_deltaCredits = creditsToBuy,
                                  gi_reason = why,
                                  gi_referenceId = Some providerPaymentId,
                                  gi_metadataJson = Some meta\<rparr>)
                               (\<lambda>_. io_return ())))))"

text \<open>
  The two branches of \<^verbatim>\<open>handleStripeEvent\<close> differ in the canonical id, the amount, the
  currency, the reason and the metadata; \<open>settleStripe\<close> is the text they share.
\<close>

definition handleStripeEvent :: "stripe_event \<Rightarrow> unit io" where
  "handleStripeEvent event =
     (case event of
        CheckoutSessionCompleted session \<Rightarrow>
          (case (cs_userId session, cs_creditsToBuy session) of
             (Some userId, Some creditsToBuy) \<Rightarrow>
               if userId = [] \<or> creditsToBuy \<le> 0 then io_return ()
               else settleStripe userId creditsToBuy (''stripe_'' @ cs_id session)
                      (case cs_amount_total session of Some a \<Rightarrow> a | None \<Rightarrow> 0)
                      (case cs_currency session of Some c \<Rightarrow> c | None \<Rightarrow> ''usd'')
                      (JsonSession session) ''payment_stripe_succeeded''
                      (JsonSessionId (cs_id session))
           | _ \<Rightarrow> io_return ())
      | PaymentIntentSucceeded paymentIntent \<Rightarrow>
          (case (pi_userId paymentIntent, pi_creditsToBuy paymentIntent) of
             (Some userId, Some creditsToBuy) \<Rightarrow>
               if userId = [] \<or> creditsToBuy \<le> 0 then io_return ()
               else settleStripe userId creditsToBuy (''stripe_pi_'' @ pi_id paymentIntent)
                      (if pi_amount_received paymentIntent \<noteq> 0
                       then pi_amount_received paymentIntent else pi_amount paymentIntent)
                      (pi_currency paymentIntent)
                      (JsonIntent paymentIntent) ''payment_stripe_applepay_succeeded''
                      (JsonPaymentIntentId (pi_id paymentIntent))
           | _ \<Rightarrow> io_return ())
      | OtherStripeEvent _ \<Rightarrow> io_return ())"

text \<open>
  \<^verbatim>\<open>Math.floor(payload.amountMinor / 100)\<close> on an integer amount is the floor division of
  the integers (exact for every safe integer).
\<close>

definition derivedCreditsOf :: "usdt_payload \<Rightarrow> int" where
  "derivedCreditsOf payload = up_amountMinor payload div 100"

definition isPaymentSettled :: "server_env \<Rightarrow> usdt_payload \<Rightarrow> bool" where
  "isPaymentSettled env payload \<longleftrightarrow>
     up_status payload = StatusConfirmed \<and> up_confirmations payload \<ge> usdtConfirmationsRequired env"

definition paymentStatusOf :: "server_env \<Rightarrow> usdt_payload \<Rightarrow> payment_status" where
  "paymentStatusOf env payload =
     (if isPaymentSettled env payload then Succeeded
      else if up_status payload = StatusFailed then Failed else PaymentPending)"

definition handleUsdtPayment :: "server_env \<Rightarrow> usdt_payload \<Rightarrow> unit io" where
  "handleUsdtPayment env payload =
     (let providerPaymentId = ''usdt_'' @ transactionId payload in
      io_bind (io_lift getIsoTimestamp)
        (\<lambda>now.
           io_bind (selectPaymentByProviderId providerPaymentId)
             (\<lambda>existingPayment.
                let derivedCredits = derivedCreditsOf payload;
                    paymentStatus = paymentStatusOf env payload
                in case existingPayment of
                     Some existing \<Rightarrow>
                       updatePaymentById (pay_id existing) paymentStatus (JsonUsdt payload) now
                   | None \<Rightarrow>
                       io_bind (io_lift randomUUID)
                         (\<lambda>uuid.
                            io_bind (insertPayment
                                \<lparr>pay_id = ''pay_'' @ shortId uuid,
                                 pay_userId = up_userId payload,
                                 pay_provider = Usdt,
                                 pay_providerPaymentId = providerPaymentId,
                                 pay_status = paymentStatus,
                                 pay_amountMinor = up_amountMinor payload,
                                 pay_currency = up_currency payload,
                                 creditsPurchased = derivedCredits,
                                 rawPayloadJson = JsonUsdt payload,
                                 pay_createdAt = now,
                                 pay_updatedAt = now\<rparr>)
                              (\<lambda>_.
                                 if isPaymentSettled env payload \<and> derivedCredits > 0
                                 then io_bind (grantCredits
                                     \<lparr>gi_userId = up_userId payload,
                                      gi_deltaCredits = derivedCredits,
                                      gi_reason = ''payment_usdt_confirmed'',
                                      gi_referenceId = Some providerPaymentId,
                                      gi_metadataJson = Some (JsonUsdt payload)\<rparr>)
                                   (\<lambda>_. io_return ())
                                 else io_return ())))))"

section \<open>Vocabulary of the statements\<close>

text \<open>
  What the statements below speak about: keys of records, runs of operations, and the
  conditions that hold along a run. None of it is read by the code above.
\<close>

definition depKey :: "deposit \<Rightarrow> string \<times> int" where
  "depKey r = (dep_txHash r, dep_logIndex r)"

definition inputKey :: "upsert_input \<Rightarrow> string \<times> int" where
  "inputKey inp = (in_txHash inp, in_logIndex inp)"

fun lastObservation :: "upsert_input list \<Rightarrow> string \<times> int \<Rightarrow> upsert_input option" where
  "lastObservation [] k = None"
| "lastObservation (x # xs) k =
     (case lastObservation xs k of
        Some y \<Rightarrow> Some y
      | None \<Rightarrow> if inputKey x = k then Some x else None)"

definition inputAccepted :: "config \<Rightarrow> upsert_input \<Rightarrow> bool" where
  "inputAccepted cfg inp \<longleftrightarrow>
     int4 (chainId cfg) \<and> int4 (in_logIndex inp) \<and> int4 (NumberOfBigInt (in_blockNumber inp)) \<and>
     int4 (upsertConfirmations inp)"

definition sameButUpdatedAt :: "deposit \<Rightarrow> deposit \<Rightarrow> bool" where
  "sameButUpdatedAt a b \<longleftrightarrow> b\<lparr>dep_updatedAt := dep_updatedAt a\<rparr> = a"

fun applyBatch :: "config \<Rightarrow> (upsert_input \<times> timestamp) list \<Rightarrow> deposit list \<Rightarrow> deposit list" where
  "applyBatch cfg [] t = t"
| "applyBatch cfg ((x, now) # xts) t = applyBatch cfg xts (onConflictDoUpdate (depositRow cfg x now) t)"

definition overwritten :: "config \<Rightarrow> upsert_input list \<Rightarrow> deposit \<Rightarrow> deposit \<Rightarrow> bool" where
  "overwritten cfg xs r r' =
     (case lastObservation xs (depKey r) of
        None \<Rightarrow> r' = r
      | Some y \<Rightarrow> \<exists>u. r' = r\<lparr>dep_confirmations := upsertConfirmations y,
                              dep_status := statusFor cfg (upsertConfirmations y),
                              dep_updatedAt := u\<rparr>)"

definition unchanged :: "config \<Rightarrow> int \<Rightarrow> deposit \<Rightarrow> bool" where
  "unchanged cfg h pd \<longleftrightarrow>
     NumberOfBigInt (h - dep_blockNumber pd + 1) = dep_confirmations pd \<and>
     statusFor cfg (NumberOfBigInt (h - dep_blockNumber pd + 1)) = dep_status pd"

definition sweepAccepts :: "config \<Rightarrow> int \<Rightarrow> deposit \<Rightarrow> bool" where
  "sweepAccepts cfg h pd \<longleftrightarrow>
     unchanged cfg h pd \<or> int4 (NumberOfBigInt (h - dep_blockNumber pd + 1))"

definition refreshRow :: "config \<Rightarrow> int \<Rightarrow> timestamp \<Rightarrow> deposit \<Rightarrow> deposit \<Rightarrow> deposit" where
  "refreshRow cfg h now pd r =
     (if \<not> unchanged cfg h pd \<and> dep_id r = dep_id pd
      then r\<lparr>dep_confirmations := NumberOfBigInt (h - dep_blockNumber pd + 1),
             dep_status := statusFor cfg (NumberOfBigInt (h - dep_blockNumber pd + 1)),
             dep_updatedAt := now\<rparr>
      else r)"

definition ppids :: "world \<Rightarrow> string list" where
  "ppids w = map pay_providerPaymentId (paymentsTable w)"

definition grantedOnce :: "string option \<Rightarrow> world \<Rightarrow> world \<Rightarrow> bool" where
  "grantedOnce ref w w' \<longleftrightarrow>
     creditLedgerTable w' = creditLedgerTable w \<or>
     (\<exists>e. creditLedgerTable w' = creditLedgerTable w @ [e] \<and> referenceId e = ref)"

definition post :: "(world \<Rightarrow> bool) \<Rightarrow> 'a io \<Rightarrow> world \<Rightarrow> bool" where
  "post P m w \<longleftrightarrow> P (snd (m w))"

definition grantStep :: "string \<Rightarrow> world \<Rightarrow> world \<Rightarrow> bool" where
  "grantStep ppid w w' \<longleftrightarrow>
     (ppids w' = ppids w \<and> creditLedgerTable w' = creditLedgerTable w) \<or>
     (ppid \<notin> set (ppids w) \<and> ppids w' = ppids w @ [ppid] \<and> grantedOnce (Some ppid) w w')"

definition refCount :: "string \<Rightarrow> ledger_entry list \<Rightarrow> nat" where
  "refCount r led = length (filter (\<lambda>e. referenceId e = Some r) led)"

definition ledgerInv :: "world \<Rightarrow> bool" where
  "ledgerInv w \<longleftrightarrow>
     (\<forall>e \<in> set (creditLedgerTable w).
        case referenceId e of
          None \<Rightarrow> True
        | Some r \<Rightarrow> refCount r (creditLedgerTable w) = 1 \<and> r \<in> set (ppids w))"

datatype delivery = StripeEvent stripe_event | UsdtWebhook usdt_payload

fun deliver :: "server_env \<Rightarrow> delivery \<times> nat option \<Rightarrow> world \<Rightarrow> world" where
  "deliver env (StripeEvent event, k) w = snd (handleStripeEvent event (w\<lparr>faults := k\<rparr>))"
| "deliver env (UsdtWebhook payload, k) w = snd (handleUsdtPayment env payload (w\<lparr>faults := k\<rparr>))"

fun deliverAll :: "server_env \<Rightarrow> (delivery \<times> nat option) list \<Rightarrow> world \<Rightarrow> world" where
  "deliverAll env [] w = w"
| "deliverAll env (d # ds) w = deliverAll env ds (deliver env d w)"

definition cursorOf :: "config \<Rightarrow> world \<Rightarrow> int option" where
  "cursorOf cfg w =
     (case map_of (workerStateTable w) (WORKER_CURSOR_KEY cfg) of
        None \<Rightarrow> None | Some s \<Rightarrow> Some (ws_value s))"

definition depKeys :: "world \<Rightarrow> (string \<times> int) set" where
  "depKeys w = set (map depKey (chainDepositsTable w))"

definition chainStep :: "world \<Rightarrow> world \<Rightarrow> bool" where
  "chainStep w w' \<longleftrightarrow> workerStateTable w' = workerStateTable w \<and> depKeys w \<subseteq> depKeys w'"

definition logKey :: "transfer_log \<Rightarrow> string \<times> int" where
  "logKey l = (log_transactionHash l, log_logIndex l)"

definition recordedAll :: "config \<Rightarrow> rpc \<Rightarrow> int \<Rightarrow> int \<Rightarrow> world \<Rightarrow> bool" where
  "recordedAll cfg node fromBlock latest w \<longleftrightarrow>
     (\<forall>token \<in> set (trackedTokens cfg).
        \<forall>l \<in> set (getLogs node (address token) fromBlock latest (receiverAddress cfg)).
          logKey l \<in> depKeys w)"

definition cursorPost :: "config \<Rightarrow> rpc \<Rightarrow> world \<Rightarrow> world \<Rightarrow> bool" where
  "cursorPost cfg node w w' \<longleftrightarrow>
     (let latest = getBlockNumber node; fromBlock = fromBlockOf cfg (cursorOf cfg w) latest in
      workerStateTable w' = workerStateTable w \<or>
      (fromBlock \<le> latest \<and> cursorOf cfg w' = Some latest \<and> recordedAll cfg node fromBlock latest w'))"

section \<open>Concrete inputs\<close>

definition exampleToken :: tracked_token where
  "exampleToken = \<lparr>symbol = USDT, address = ''0xT'', decimals = 6\<rparr>"

definition exampleConfig :: config where
  "exampleConfig =
     \<lparr>chainId = 137, receiverAddress = ''0xR'', polygonUsdtAddress = Some ''0xT'',
      polygonUsdcAddress = None, minConfirmations = 2, startBlock = None\<rparr>"

definition freshWorld :: world where
  "freshWorld =
     \<lparr>usersTable = [], paymentsTable = [], creditLedgerTable = [], chainDepositsTable = [],
      workerStateTable = [], isPolling = False, faults = None,
      clock = (\<lambda>n. ''2026-01-01T00:00:00.000Z''), clockReads = 0,
      uuidSource = (\<lambda>n. ''123e4567-e89b-42d3-a456-426614174000''), uuidReads = 0\<rparr>"

definition exampleInput :: "int \<Rightarrow> int \<Rightarrow> upsert_input" where
  "exampleInput blockNumber latestBlock =
     \<lparr>in_token = exampleToken, in_txHash = ''0xabc'', in_logIndex = 0,
      in_blockNumber = blockNumber, in_fromAddress = ''0xS'', in_toAddress = ''0xR'',
      in_amountRaw = 5000000, in_latestBlock = latestBlock\<rparr>"

definition quietNode :: "int \<Rightarrow> rpc" where
  "quietNode head = \<lparr>getBlockNumber = head, getLogs = (\<lambda>token fromBlock toBlock receiver. [])\<rparr>"

definition cursorAt :: "int \<Rightarrow> world" where
  "cursorAt n =
     freshWorld\<lparr>workerStateTable :=
       [((137, ''0xR''), \<lparr>ws_value = n, ws_updatedAt = ''2026-01-01T00:00:00.000Z''\<rparr>)]\<rparr>"

definition exampleLog :: "int \<Rightarrow> transfer_log" where
  "exampleLog blockNumber =
     \<lparr>log_transactionHash = ''0xabc'', log_logIndex = 0, log_blockNumber = blockNumber,
      log_from = ''0xS'', log_to = ''0xR'', log_value = 5000000\<rparr>"

definition exampleNode :: "int \<Rightarrow> transfer_log list \<Rightarrow> rpc" where
  "exampleNode head logs =
     \<lparr>getBlockNumber = head,
      getLogs = (\<lambda>token fromBlock toBlock receiver.
        if token = ''0xT'' \<and> receiver = ''0xR''
        then filter (\<lambda>l. fromBlock \<le> log_blockNumber l \<and> log_blockNumber l \<le> toBlock) logs
        else [])\<rparr>"

definition interruptedCycle :: world where
  "interruptedCycle =
     runPollCycle exampleConfig (exampleNode 100 [exampleLog 99]) ((cursorAt 90)\<lparr>faults := Some 4\<rparr>)"

definition laggingCycle :: world where
  "laggingCycle =
     runPollCycle exampleConfig (exampleNode 99 [exampleLog 99]) (interruptedCycle\<lparr>faults := None\<rparr>)"

definition depositAt :: "int \<Rightarrow> int \<Rightarrow> deposit_status \<Rightarrow> deposit" where
  "depositAt blockNumber confirmations status =
     \<lparr>dep_id = (''0xabc'', 0), dep_chainId = 137, dep_network = ''POLYGON'',
      dep_tokenSymbol = USDT, dep_tokenAddress = ''0xT'', dep_fromAddress = ''0xS'',
      dep_toAddress = ''0xR'', dep_txHash = ''0xabc'', dep_logIndex = 0,
      dep_blockNumber = blockNumber, dep_amountRaw = 5000000, dep_amountDecimal = (5000000, 6),
      dep_confirmations = confirmations, dep_status = status,
      dep_observedAt = ''2026-01-01T00:00:00.000Z'', dep_updatedAt = ''2026-01-01T00:00:00.000Z''\<rparr>"

definition worldWith :: "deposit list \<Rightarrow> world" where
  "worldWith rows = freshWorld\<lparr>chainDepositsTable := rows\<rparr>"

definition exampleEnv :: server_env where
  "exampleEnv = \<lparr>usdtConfirmationsRequired = 2\<rparr>"

definition exampleUser :: "int \<Rightarrow> user" where
  "exampleUser credits =
     \<lparr>user_id = ''usr_1'', apiCredits = credits, user_updatedAt = ''2026-01-01T00:00:00.000Z''\<rparr>"

definition serverWorld :: world where
  "serverWorld = freshWorld\<lparr>usersTable := [exampleUser 0]\<rparr>"

definition examplePayload :: "webhook_status \<Rightarrow> int \<Rightarrow> int \<Rightarrow> usdt_payload" where
  "examplePayload status confirmations amountMinor =
     \<lparr>transactionId = ''tx1'', up_userId = ''usr_1'', up_amountMinor = amountMinor,
      up_currency = ''USDT'', up_network = ''TRON'', up_status = status,
      up_confirmations = confirmations\<rparr>"

definition succeededPayment :: payment where
  "succeededPayment =
     \<lparr>pay_id = ''pay_1'', pay_userId = ''usr_1'', pay_provider = Usdt,
      pay_providerPaymentId = ''usdt_tx1'', pay_status = Succeeded, pay_amountMinor = 500,
      pay_currency = ''USDT'', creditsPurchased = 5,
      rawPayloadJson = JsonUsdt (examplePayload StatusConfirmed 2 500),
      pay_createdAt = ''2026-01-01T00:00:00.000Z'', pay_updatedAt = ''2026-01-01T00:00:00.000Z''\<rparr>"

definition paidWorld :: world where
  "paidWorld = serverWorld\<lparr>paymentsTable := [succeededPayment]\<rparr>"

section \<open>Numbers\<close>

lemma bitLength_le: "n < 2 ^ k \<Longrightarrow> bitLength n \<le> k"
proof (induction k arbitrary: n)
  case 0
  then show ?case by (simp add: bitLength.simps [of 0])
next
  case (Suc k)
  have "n div 2 < 2 ^ k" using Suc.prems by simp
  from Suc.IH [OF this] show ?case by (simp add: bitLength.simps [of n])
qed

lemma roundToDouble_exact: "n < 2 ^ 53 \<Longrightarrow> roundToDouble n = n"
  using bitLength_le [of n 53] by (simp add: roundToDouble_def Let_def)

lemma NumberOfBigInt_exact: "0 \<le> b \<Longrightarrow> b \<le> MAX_SAFE_INTEGER \<Longrightarrow> NumberOfBigInt b = b"
proof -
  assume a: "0 \<le> b" "b \<le> MAX_SAFE_INTEGER"
  then have "nat b < 2 ^ 53" by (simp add: MAX_SAFE_INTEGER_def nat_less_iff)
  then show ?thesis using a by (simp add: NumberOfBigInt_def roundToDouble_exact)
qed

lemma upsertConfirmations_eq:
  "upsertConfirmations inp = min (confirmationsBigInt (in_latestBlock inp) (in_blockNumber inp)) MAX_SAFE_INTEGER"
proof -
  let ?c = "confirmationsBigInt (in_latestBlock inp) (in_blockNumber inp)"
  have "0 \<le> ?c" by (simp add: confirmationsBigInt_def)
  then show ?thesis
    by (simp add: upsertConfirmations_def Let_def NumberOfBigInt_exact min_def MAX_SAFE_INTEGER_def)
qed

lemma bitLength_eq: "2 ^ k \<le> n \<Longrightarrow> n < 2 ^ Suc k \<Longrightarrow> bitLength n = Suc k"
proof (induction k arbitrary: n)
  case 0
  then have "n = 1" by simp
  then show ?case by (simp add: bitLength.simps [of "Suc 0"] bitLength.simps [of 0])
next
  case (Suc k)
  have "2 ^ k \<le> n div 2" "n div 2 < 2 ^ Suc k" using Suc.prems by auto
  from Suc.IH [OF this] show ?case using Suc.prems by (simp add: bitLength.simps [of n])
qed

lemma NumberOfBigInt_pow53: "NumberOfBigInt (2 ^ 53) = 2 ^ 53"
  using bitLength_eq [of 53 "2 ^ 53"]
  by (simp add: NumberOfBigInt_def roundToDouble_def Let_def)

lemma NumberOfBigInt_ties_down: "NumberOfBigInt 9007199254740993 = 9007199254740992"
  using bitLength_eq [of 53 "9007199254740993"]
  by (simp add: NumberOfBigInt_def roundToDouble_def Let_def)

lemma NumberOfBigInt_ties_up: "NumberOfBigInt 9007199254740995 = 9007199254740996"
  using bitLength_eq [of 53 "9007199254740995"]
  by (simp add: NumberOfBigInt_def roundToDouble_def Let_def)

lemma NumberOfBigInt_negative: "NumberOfBigInt (- b) = - NumberOfBigInt b"
  by (cases "b = 0") (auto simp: NumberOfBigInt_def roundToDouble_exact)

lemma NumberOfBigInt_exact_abs:
  assumes "- MAX_SAFE_INTEGER \<le> b" and "b \<le> MAX_SAFE_INTEGER"
  shows "NumberOfBigInt b = b"
proof (cases "0 \<le> b")
  case True
  with assms show ?thesis by (simp add: NumberOfBigInt_exact)
next
  case False
  then have "NumberOfBigInt (- b) = - b" using assms by (intro NumberOfBigInt_exact) simp_all
  then show ?thesis by (simp add: NumberOfBigInt_negative)
qed

lemma bitLength_upper: "n < 2 ^ bitLength n"
proof (induction n rule: bitLength.induct)
  case (1 n)
  show ?case
  proof (cases "n = 0")
    case True
    then show ?thesis by (simp add: bitLength.simps [of 0])
  next
    case False
    from 1 [OF False] have "n div 2 < 2 ^ bitLength (n div 2)" .
    then have "n < 2 * 2 ^ bitLength (n div 2)" by simp
    then show ?thesis using False by (simp add: bitLength.simps [of n])
  qed
qed

lemma bitLength_lower: "0 < n \<Longrightarrow> 2 ^ (bitLength n - 1) \<le> n"
proof (induction n rule: bitLength.induct)
  case (1 n)
  then have n: "n \<noteq> 0" by simp
  show ?case
  proof (cases "n div 2 = 0")
    case True
    then show ?thesis using n by (simp add: bitLength.simps [of n] bitLength.simps [of 0])
  next
    case False
    then have pos: "0 < n div 2" by simp
    from 1(1) [OF n pos] have ih: "2 ^ (bitLength (n div 2) - 1) \<le> n div 2" .
    have "0 < bitLength (n div 2)" using False by (simp add: bitLength.simps [of "n div 2"])
    then have "(2::nat) ^ bitLength (n div 2) = 2 * 2 ^ (bitLength (n div 2) - 1)"
      by (cases "bitLength (n div 2)") simp_all
    also have "\<dots> \<le> 2 * (n div 2)" using ih by simp
    also have "\<dots> \<le> n" by simp
    finally show ?thesis using n by (simp add: bitLength.simps [of n])
  qed
qed

lemma roundToDouble_ge:
  assumes "2 ^ 53 \<le> n"
  shows "2 ^ 53 \<le> roundToDouble n"
proof -
  let ?k = "bitLength n"
  have "(2::nat) ^ 53 < 2 ^ ?k" using assms bitLength_upper [of n] by simp
  then have k: "53 < ?k" by (simp only: power_strict_increasing_iff rel_simps)
  define e where "e = ?k - 53"
  have e: "0 < e" "?k - 1 = 52 + e" using k by (simp_all add: e_def)
  have "0 < n" using assms by (cases "n = 0") simp_all
  have "(2::nat) ^ (?k - 1) = 2 ^ 52 * 2 ^ e" by (simp only: e(2) power_add)
  with bitLength_lower [OF \<open>0 < n\<close>] have low: "2 ^ 52 * 2 ^ e \<le> n" by simp
  have q: "2 ^ 52 \<le> n div 2 ^ e"
    using low by (simp add: less_eq_div_iff_mult_less_eq)
  let ?q = "n div 2 ^ e"
  have "(2::nat) ^ 53 \<le> 2 ^ 52 * 2 ^ e" using e(1) by (cases e) simp_all
  also have "\<dots> \<le> ?q * 2 ^ e" using q by simp
  finally have 1: "2 ^ 53 \<le> ?q * 2 ^ e" .
  then have 2: "2 ^ 53 \<le> (?q + 1) * 2 ^ e" by simp
  show ?thesis using k 1 2 by (simp add: roundToDouble_def Let_def e_def)
qed

lemma NumberOfBigInt_int4:
  assumes "int4 (NumberOfBigInt b)"
  shows "NumberOfBigInt b = b"
proof (cases "- MAX_SAFE_INTEGER \<le> b \<and> b \<le> MAX_SAFE_INTEGER")
  case True
  then show ?thesis by (simp add: NumberOfBigInt_exact_abs)
next
  case False
  then consider "2 ^ 53 \<le> b" | "b \<le> - (2 ^ 53)" by (auto simp: MAX_SAFE_INTEGER_def)
  then have False
  proof cases
    case 1
    then have "2 ^ 53 \<le> nat b" by (simp add: le_nat_iff)
    from roundToDouble_ge [OF this] have "2 ^ 53 \<le> int (roundToDouble (nat b))"
      by (metis of_nat_le_iff of_nat_numeral of_nat_power)
    then show False using assms 1 by (simp add: NumberOfBigInt_def int4_def)
  next
    case 2
    then have "2 ^ 53 \<le> nat (- b)" by (simp add: le_nat_iff)
    from roundToDouble_ge [OF this] have "2 ^ 53 \<le> int (roundToDouble (nat (- b)))"
      by (metis of_nat_le_iff of_nat_numeral of_nat_power)
    then show False using assms 2 by (simp add: NumberOfBigInt_def int4_def)
  qed
  then show ?thesis ..
qed

lemma int4_safe: "int4 n \<Longrightarrow> - MAX_SAFE_INTEGER \<le> n \<and> n \<le> MAX_SAFE_INTEGER"
  by (simp add: int4_def MAX_SAFE_INTEGER_def)

section \<open>Awaited calls and loops\<close>

lemma await_ok: "faults w = None \<Longrightarrow> await stmt w = (Inr (fst (stmt w)), snd (stmt w))"
  by (simp add: await_def io_lift_def split: prod.splits)

lemma awaitIf_ok:
  "faults w = None \<Longrightarrow> accepted w \<Longrightarrow> awaitIf accepted stmt w = (Inr (fst (stmt w)), snd (stmt w))"
  by (simp add: awaitIf_def await_ok)

lemma awaitIf_rejected: "\<not> accepted w \<Longrightarrow> awaitIf accepted stmt w = (Inl IoError, w)"
  by (simp add: awaitIf_def)

lemma await_cases:
  "await stmt w = (Inl IoError, w) \<or>
   (\<exists>k. await stmt w = (Inr (fst (stmt (w\<lparr>faults := k\<rparr>))), snd (stmt (w\<lparr>faults := k\<rparr>))))"
proof (cases "faults w")
  case None
  have "w\<lparr>faults := faults w\<rparr> = w" by simp
  with None have eq: "w\<lparr>faults := None\<rparr> = w" by metis
  have "await stmt w = (Inr (fst (stmt w)), snd (stmt w))"
    using None by (rule await_ok)
  then have "await stmt w = (Inr (fst (stmt (w\<lparr>faults := None\<rparr>))), snd (stmt (w\<lparr>faults := None\<rparr>)))"
    by (simp only: eq)
  then show ?thesis by blast
next
  case (Some n)
  show ?thesis
  proof (cases n)
    case 0
    with Some show ?thesis by (simp add: await_def)
  next
    case (Suc k)
    with Some have "await stmt w = (Inr (fst (stmt (w\<lparr>faults := Some k\<rparr>))), snd (stmt (w\<lparr>faults := Some k\<rparr>)))"
      by (simp add: await_def io_lift_def split: prod.splits)
    then show ?thesis by blast
  qed
qed

lemma awaitIf_cases:
  "awaitIf accepted stmt w = (Inl IoError, w) \<or>
   (accepted w \<and>
    (\<exists>k. awaitIf accepted stmt w =
       (Inr (fst (stmt (w\<lparr>faults := k\<rparr>))), snd (stmt (w\<lparr>faults := k\<rparr>)))))"
  using await_cases [of stmt w] by (simp add: awaitIf_def)

lemma foreach_inv:
  assumes "\<And>x w. x \<in> set xs \<Longrightarrow> P w \<Longrightarrow> P (snd (f x w))" and "P w"
  shows "P (snd (io_foreach f xs w))"
  using assms
proof (induction xs arbitrary: w)
  case Nil
  then show ?case by (simp add: io_return_def)
next
  case (Cons x xs)
  have 1: "P (snd (f x w))" using Cons.prems by simp
  obtain r w1 where fx: "f x w = (r, w1)" by (cases "f x w")
  show ?case
  proof (cases r)
    case (Inl e)
    with fx 1 show ?thesis by (simp add: io_bind_def)
  next
    case (Inr u)
    have "P (snd (io_foreach f xs w1))"
      using Cons.IH [of w1] Cons.prems(1) 1 fx by simp
    with fx Inr show ?thesis by (simp add: io_bind_def)
  qed
qed

lemma refreshOne_table:
  "chainDepositsTable (snd (refreshOne cfg h now pd w)) = chainDepositsTable w \<or>
   int4 (NumberOfBigInt (h - dep_blockNumber pd + 1)) \<and>
   chainDepositsTable (snd (refreshOne cfg h now pd w)) =
     setWhereId (dep_id pd) (NumberOfBigInt (h - dep_blockNumber pd + 1))
       (statusFor cfg (NumberOfBigInt (h - dep_blockNumber pd + 1))) now (chainDepositsTable w)"
  using awaitIf_cases [of "\<lambda>w. int4 (NumberOfBigInt (h - dep_blockNumber pd + 1))"
      "\<lambda>w. ((), w\<lparr>chainDepositsTable :=
          setWhereId (dep_id pd) (NumberOfBigInt (h - dep_blockNumber pd + 1))
            (statusFor cfg (NumberOfBigInt (h - dep_blockNumber pd + 1))) now (chainDepositsTable w)\<rparr>)" w]
  by (auto simp: refreshOne_def Let_def io_return_def updateDepositById_def)

lemma refresh_inv:
  assumes I0: "I (chainDepositsTable w)"
    and step: "\<And>pd now t. pd \<in> set (chainDepositsTable w) \<Longrightarrow> dep_status pd = Pending \<Longrightarrow>
       dep_blockNumber pd \<le> NumberOfBigInt h \<Longrightarrow> int4 (NumberOfBigInt h) \<Longrightarrow>
       int4 (NumberOfBigInt (h - dep_blockNumber pd + 1)) \<Longrightarrow> I t \<Longrightarrow>
       I (setWhereId (dep_id pd) (NumberOfBigInt (h - dep_blockNumber pd + 1))
           (statusFor cfg (NumberOfBigInt (h - dep_blockNumber pd + 1))) now t)"
  shows "I (chainDepositsTable (snd (refreshPendingConfirmations cfg h w)))"
proof -
  let ?ok = "\<lambda>w::world. int4 (NumberOfBigInt h)"
  let ?sel = "\<lambda>w::world. (filter (\<lambda>r. dep_status r = Pending \<and> dep_blockNumber r \<le> NumberOfBigInt h)
      (chainDepositsTable w), w)"
  have sel: "selectPendingDeposits (NumberOfBigInt h) = awaitIf ?ok ?sel"
    by (simp add: selectPendingDeposits_def)
  from awaitIf_cases [of ?ok ?sel w] show ?thesis
  proof
    assume "awaitIf ?ok ?sel w = (Inl IoError, w)"
    then show ?thesis using I0 by (simp add: refreshPendingConfirmations_def io_bind_def sel)
  next
    assume "?ok w \<and> (\<exists>k. awaitIf ?ok ?sel w =
      (Inr (fst (?sel (w\<lparr>faults := k\<rparr>))), snd (?sel (w\<lparr>faults := k\<rparr>))))"
    then obtain k where h4: "int4 (NumberOfBigInt h)" and
      a: "awaitIf ?ok ?sel w = (Inr (fst (?sel (w\<lparr>faults := k\<rparr>))), snd (?sel (w\<lparr>faults := k\<rparr>)))"
      by blast
    let ?pds = "filter (\<lambda>r. dep_status r = Pending \<and> dep_blockNumber r \<le> NumberOfBigInt h) (chainDepositsTable w)"
    let ?w1 = "w\<lparr>faults := k, clockReads := Suc (clockReads w)\<rparr>"
    let ?now = "clock w (clockReads w)"
    have e: "refreshPendingConfirmations cfg h w = io_foreach (refreshOne cfg h ?now) ?pds ?w1"
      using a by (simp add: refreshPendingConfirmations_def io_bind_def sel io_lift_def getIsoTimestamp_def)
    have "I (chainDepositsTable (snd (io_foreach (refreshOne cfg h ?now) ?pds ?w1)))"
    proof (rule foreach_inv [where P = "\<lambda>w. I (chainDepositsTable w)"])
      show "I (chainDepositsTable ?w1)" using I0 by simp
    next
      fix pd and w' :: world
      assume pd: "pd \<in> set ?pds" and i: "I (chainDepositsTable w')"
      from refreshOne_table [of cfg h ?now pd w'] show "I (chainDepositsTable (snd (refreshOne cfg h ?now pd w')))"
        using i step [of pd "chainDepositsTable w'" ?now] pd h4 by auto
    qed
    then show ?thesis by (simp add: e)
  qed
qed

section \<open>Replaying a batch of observations\<close>

lemma deposit_int4_depositRow [simp]:
  "deposit_int4 (depositRow cfg inp now) = inputAccepted cfg inp"
  by (simp add: deposit_int4_def depositRow_def inputAccepted_def Let_def)

lemma upsertDeposit_ok:
  assumes "faults w = None" and "inputAccepted cfg inp"
  shows "upsertDeposit cfg inp w =
    (Inr (), w\<lparr>clockReads := Suc (clockReads w),
               chainDepositsTable :=
                 onConflictDoUpdate (depositRow cfg inp (clock w (clockReads w))) (chainDepositsTable w)\<rparr>)"
  using assms
  by (simp add: upsertDeposit_def io_bind_def io_lift_def getIsoTimestamp_def awaitIf_ok
      insertDepositOnConflictUpdate_def)

lemma upsertDeposit_rejected:
  assumes "\<not> inputAccepted cfg inp"
  shows "upsertDeposit cfg inp w = (Inl IoError, w\<lparr>clockReads := Suc (clockReads w)\<rparr>)"
  using assms
  by (simp add: upsertDeposit_def io_bind_def io_lift_def getIsoTimestamp_def awaitIf_rejected
      insertDepositOnConflictUpdate_def)

lemma conflicts_depositRow [simp]: "conflicts (depositRow cfg inp now) r \<longleftrightarrow> depKey r = inputKey inp"
  by (auto simp: conflicts_def depositRow_def depKey_def inputKey_def Let_def)

lemma depKey_depositRow [simp]: "depKey (depositRow cfg inp now) = inputKey inp"
  by (simp add: depositRow_def depKey_def inputKey_def Let_def)

lemma depositRow_conf [simp]:
  "dep_confirmations (depositRow cfg inp now) = upsertConfirmations inp"
  "dep_status (depositRow cfg inp now) = statusFor cfg (upsertConfirmations inp)"
  "dep_updatedAt (depositRow cfg inp now) = now"
  by (simp_all add: depositRow_def Let_def)

lemma depKey_update [simp]:
  "depKey (r\<lparr>dep_confirmations := c, dep_status := s, dep_updatedAt := u\<rparr>) = depKey r"
  by (simp add: depKey_def)

lemma keys_onConflictDoUpdate:
  "map depKey (onConflictDoUpdate (depositRow cfg inp now) t) =
     (if inputKey inp \<in> set (map depKey t) then map depKey t else map depKey t @ [inputKey inp])"
proof -
  have c: "(\<exists>r \<in> set t. conflicts (depositRow cfg inp now) r) \<longleftrightarrow> inputKey inp \<in> set (map depKey t)"
    by (force simp: image_iff)
  show ?thesis
    unfolding onConflictDoUpdate_def c
    by (simp add: o_def if_distrib [of depKey] cong: if_cong)
qed

lemma foreach_upsert_run:
  "faults w = None \<Longrightarrow>
   \<exists>xts. map fst xts = takeWhile (inputAccepted cfg) xs \<and>
     chainDepositsTable (snd (io_foreach (upsertDeposit cfg) xs w)) =
       applyBatch cfg xts (chainDepositsTable w) \<and>
     faults (snd (io_foreach (upsertDeposit cfg) xs w)) = None \<and>
     (fst (io_foreach (upsertDeposit cfg) xs w) = Inr () \<longleftrightarrow> list_all (inputAccepted cfg) xs)"
proof (induction xs arbitrary: w)
  case Nil
  then show ?case by (simp add: io_return_def)
next
  case (Cons x xs)
  show ?case
  proof (cases "inputAccepted cfg x")
    case False
    have "io_foreach (upsertDeposit cfg) (x # xs) w = (Inl IoError, w\<lparr>clockReads := Suc (clockReads w)\<rparr>)"
      by (simp add: io_bind_def upsertDeposit_rejected [OF False])
    then show ?thesis using False Cons.prems by simp
  next
    case True
    let ?now = "clock w (clockReads w)"
    let ?w1 = "w\<lparr>clockReads := Suc (clockReads w),
                 chainDepositsTable :=
                   onConflictDoUpdate (depositRow cfg x ?now) (chainDepositsTable w)\<rparr>"
    have f1: "faults ?w1 = None" using Cons.prems by simp
    have run: "io_foreach (upsertDeposit cfg) (x # xs) w = io_foreach (upsertDeposit cfg) xs ?w1"
      by (simp add: io_bind_def upsertDeposit_ok [OF Cons.prems True])
    from Cons.IH [OF f1] obtain xts where
      xts: "map fst xts = takeWhile (inputAccepted cfg) xs"
        "chainDepositsTable (snd (io_foreach (upsertDeposit cfg) xs ?w1)) =
           applyBatch cfg xts (chainDepositsTable ?w1)"
        "faults (snd (io_foreach (upsertDeposit cfg) xs ?w1)) = None"
        "fst (io_foreach (upsertDeposit cfg) xs ?w1) = Inr () \<longleftrightarrow> list_all (inputAccepted cfg) xs"
      by blast
    have "map fst ((x, ?now) # xts) = takeWhile (inputAccepted cfg) (x # xs)"
      using xts(1) True by simp
    moreover have "chainDepositsTable (snd (io_foreach (upsertDeposit cfg) (x # xs) w)) =
        applyBatch cfg ((x, ?now) # xts) (chainDepositsTable w)"
      using xts(2) unfolding run by simp
    moreover have "faults (snd (io_foreach (upsertDeposit cfg) (x # xs) w)) = None"
      using xts(3) unfolding run by simp
    moreover have "fst (io_foreach (upsertDeposit cfg) (x # xs) w) = Inr () \<longleftrightarrow>
        list_all (inputAccepted cfg) (x # xs)"
      using xts(4) True unfolding run by simp
    ultimately show ?thesis by blast
  qed
qed

lemma onConflict_member:
  "r' \<in> set (onConflictDoUpdate row t) \<Longrightarrow> \<not> conflicts row r' \<Longrightarrow> r' \<in> set t"
  by (auto simp: onConflictDoUpdate_def conflicts_def split: if_splits)

lemma onConflict_conflicting:
  "r' \<in> set (onConflictDoUpdate row t) \<Longrightarrow> conflicts row r' \<Longrightarrow>
     dep_confirmations r' = dep_confirmations row \<and> dep_status r' = dep_status row"
  by (auto simp: onConflictDoUpdate_def conflicts_def split: if_splits)

lemma applyBatch_untouched:
  "r \<in> set (applyBatch cfg xts t) \<Longrightarrow> lastObservation (map fst xts) (depKey r) = None \<Longrightarrow> r \<in> set t"
proof (induction xts arbitrary: t)
  case Nil
  then show ?case by simp
next
  case (Cons a xts)
  obtain x now where a: "a = (x, now)" by (cases a)
  from Cons.prems(2) a have
    n: "lastObservation (map fst xts) (depKey r) = None" and k: "inputKey x \<noteq> depKey r"
    by (auto split: option.splits if_splits)
  from Cons.prems(1) a have "r \<in> set (applyBatch cfg xts (onConflictDoUpdate (depositRow cfg x now) t))"
    by simp
  from Cons.IH [OF this n] have "r \<in> set (onConflictDoUpdate (depositRow cfg x now) t)" .
  then show ?case using k by (auto dest: onConflict_member)
qed

lemma applyBatch_final:
  "r \<in> set (applyBatch cfg xts t) \<Longrightarrow> lastObservation (map fst xts) (depKey r) = Some y \<Longrightarrow>
     dep_confirmations r = upsertConfirmations y \<and>
     dep_status r = statusFor cfg (upsertConfirmations y)"
proof (induction xts arbitrary: t)
  case Nil
  then show ?case by simp
next
  case (Cons a xts)
  obtain x now where a: "a = (x, now)" by (cases a)
  let ?t1 = "onConflictDoUpdate (depositRow cfg x now) t"
  from Cons.prems(1) a have r: "r \<in> set (applyBatch cfg xts ?t1)" by simp
  show ?case
  proof (cases "lastObservation (map fst xts) (depKey r)")
    case (Some y')
    with Cons.prems(2) a have "y' = y" by simp
    with Cons.IH [OF r] Some show ?thesis by simp
  next
    case None
    with Cons.prems(2) a have k: "inputKey x = depKey r" and y: "y = x"
      by (auto split: if_splits)
    from applyBatch_untouched [OF r None] have "r \<in> set ?t1" .
    from onConflict_conflicting [OF this] k y show ?thesis by simp
  qed
qed

lemma applyBatch_keys:
  "set (map depKey (applyBatch cfg xts t)) = set (map depKey t) \<union> set (map inputKey (map fst xts))"
proof (induction xts arbitrary: t)
  case Nil
  then show ?case by simp
next
  case (Cons a xts)
  obtain x now where a: "a = (x, now)" by (cases a)
  show ?case using Cons.IH [of "onConflictDoUpdate (depositRow cfg x now) t"] a
    by (auto simp: keys_onConflictDoUpdate)
qed

lemma applyBatch_distinct:
  "distinct (map depKey t) \<Longrightarrow> distinct (map depKey (applyBatch cfg xts t))"
proof (induction xts arbitrary: t)
  case Nil
  then show ?case by simp
next
  case (Cons a xts)
  obtain x now where a: "a = (x, now)" by (cases a)
  have "distinct (map depKey (onConflictDoUpdate (depositRow cfg x now) t))"
    using Cons.prems by (simp add: keys_onConflictDoUpdate)
  from Cons.IH [OF this] a show ?case by simp
qed

lemma applyBatch_overwrites:
  "set (map inputKey (map fst xts)) \<subseteq> set (map depKey t) \<Longrightarrow>
     list_all2 (overwritten cfg (map fst xts)) t (applyBatch cfg xts t)"
proof (induction xts arbitrary: t)
  case Nil
  then show ?case by (simp add: overwritten_def list_all2_refl)
next
  case (Cons a xts)
  obtain x now where a: "a = (x, now)" by (cases a)
  let ?row = "depositRow cfg x now"
  let ?upd = "\<lambda>r. if conflicts ?row r
                  then r\<lparr>dep_confirmations := dep_confirmations ?row,
                         dep_status := dep_status ?row,
                         dep_updatedAt := dep_updatedAt ?row\<rparr>
                  else r"
  have present: "\<exists>r \<in> set t. conflicts ?row r" using Cons.prems a by auto
  then have t1: "onConflictDoUpdate ?row t = map ?upd t" by (simp add: onConflictDoUpdate_def)
  have keys: "map depKey (map ?upd t) = map depKey t" by (simp add: depKey_def o_def)
  have "set (map inputKey (map fst xts)) \<subseteq> set (map depKey (map ?upd t))"
    using Cons.prems a unfolding keys by simp
  from Cons.IH [OF this]
  have "list_all2 (\<lambda>r. overwritten cfg (map fst xts) (?upd r)) t (applyBatch cfg xts (map ?upd t))"
    by (simp add: list_all2_map1)
  then have "list_all2 (overwritten cfg (map fst (a # xts))) t (applyBatch cfg xts (map ?upd t))"
  proof (rule list_all2_mono)
    fix r r'
    assume h: "overwritten cfg (map fst xts) (?upd r) r'"
    have k: "depKey (?upd r) = depKey r" by (simp add: depKey_def)
    show "overwritten cfg (map fst (a # xts)) r r'"
    proof (cases "lastObservation (map fst xts) (depKey r)")
      case (Some y)
      with h k obtain u where
        "r' = (?upd r)\<lparr>dep_confirmations := upsertConfirmations y,
                          dep_status := statusFor cfg (upsertConfirmations y),
                          dep_updatedAt := u\<rparr>"
        by (auto simp: overwritten_def)
      then have "r' = r\<lparr>dep_confirmations := upsertConfirmations y,
                          dep_status := statusFor cfg (upsertConfirmations y),
                          dep_updatedAt := u\<rparr>"
        by (cases "conflicts ?row r") simp_all
      then show ?thesis using Some a by (auto simp: overwritten_def intro!: exI [of _ u])
    next
      case None
      with h k have r': "r' = ?upd r" by (simp add: overwritten_def)
      show ?thesis
      proof (cases "conflicts ?row r")
        case True
        then have "inputKey x = depKey r" by simp
        moreover have "r' = r\<lparr>dep_confirmations := upsertConfirmations x,
                          dep_status := statusFor cfg (upsertConfirmations x),
                          dep_updatedAt := now\<rparr>"
          using r' True by simp
        ultimately show ?thesis using None a by (auto simp: overwritten_def intro!: exI [of _ now])
      next
        case False
        then have "inputKey x \<noteq> depKey r" by simp
        moreover have "r' = r" using r' False by simp
        ultimately show ?thesis using None a by (simp add: overwritten_def)
      qed
    qed
  qed
  then show ?case using a t1 by simp
qed

lemma replay_twice:
  assumes "faults w = None"
    and "io_foreach (upsertDeposit cfg) batch w = (r1, w1)"
    and "io_foreach (upsertDeposit cfg) batch w1 = (r2, w2)"
  shows "(r1 = Inr () \<longleftrightarrow> list_all (inputAccepted cfg) batch) \<and>
         (r2 = Inr () \<longleftrightarrow> list_all (inputAccepted cfg) batch) \<and>
         list_all2 sameButUpdatedAt (chainDepositsTable w1) (chainDepositsTable w2) \<and>
         (distinct (map depKey (chainDepositsTable w)) \<longrightarrow>
            distinct (map depKey (chainDepositsTable w2)))"
proof -
  let ?seen = "takeWhile (inputAccepted cfg) batch"
  from foreach_upsert_run [OF assms(1), of cfg batch] assms(2) obtain xts1 where
    m1: "map fst xts1 = ?seen" and
    x1: "chainDepositsTable w1 = applyBatch cfg xts1 (chainDepositsTable w)"
      "faults w1 = None" "r1 = Inr () \<longleftrightarrow> list_all (inputAccepted cfg) batch"
    by auto
  from foreach_upsert_run [OF x1(2), of cfg batch] assms(3) obtain xts2 where
    m2: "map fst xts2 = ?seen" and
    x2: "chainDepositsTable w2 = applyBatch cfg xts2 (chainDepositsTable w1)"
      "r2 = Inr () \<longleftrightarrow> list_all (inputAccepted cfg) batch"
    by auto
  let ?t1 = "chainDepositsTable w1"
  have "set (map inputKey (map fst xts2)) \<subseteq> set (map depKey ?t1)"
    unfolding x1(1) applyBatch_keys m1 m2 by simp
  from applyBatch_overwrites [OF this, of cfg]
  have "list_all2 (overwritten cfg ?seen) ?t1 (chainDepositsTable w2)"
    by (simp add: x2 m2)
  then have "list_all2 sameButUpdatedAt ?t1 (chainDepositsTable w2)"
  proof (rule list.rel_mono_strong)
    fix r r'
    assume r: "r \<in> set ?t1" and o: "overwritten cfg ?seen r r'"
    show "sameButUpdatedAt r r'"
    proof (cases "lastObservation ?seen (depKey r)")
      case None
      with o show ?thesis by (simp add: overwritten_def sameButUpdatedAt_def)
    next
      case (Some y)
      from r have "r \<in> set (applyBatch cfg xts1 (chainDepositsTable w))" by (simp add: x1(1))
      from applyBatch_final [OF this] Some m1
      have "dep_confirmations r = upsertConfirmations y"
        "dep_status r = statusFor cfg (upsertConfirmations y)" by simp_all
      with o Some show ?thesis by (auto simp: overwritten_def sameButUpdatedAt_def)
    qed
  qed
  moreover have "distinct (map depKey (chainDepositsTable w)) \<longrightarrow>
            distinct (map depKey (chainDepositsTable w2))"
    by (simp add: x1(1) x2(1) applyBatch_distinct)
  ultimately show ?thesis using x1(3) x2(2) by simp
qed

text \<open>
  Claim C6. Replaying a batch of observations through \<open>upsertDeposit\<close> a second time,
  with no call rejecting for a reason of the environment, leaves the deposit table as the
  first pass left it, record by record, except for \<open>updatedAt\<close>: the same records in the
  same number, with the same confirmations and status; and identities that were unique
  before stay unique. Each pass completes if and only if every observation of the batch
  fits the \<open>integer\<close> columns.
\<close>

theorem replay_same:
  assumes "faults w = None"
  shows "(fst (io_foreach (upsertDeposit cfg) batch w) = Inr () \<longleftrightarrow>
       list_all (inputAccepted cfg) batch) \<and>
    (fst (io_foreach (upsertDeposit cfg) batch (snd (io_foreach (upsertDeposit cfg) batch w))) = Inr () \<longleftrightarrow>
       list_all (inputAccepted cfg) batch) \<and>
    list_all2 sameButUpdatedAt
      (chainDepositsTable (snd (io_foreach (upsertDeposit cfg) batch w)))
      (chainDepositsTable (snd (io_foreach (upsertDeposit cfg) batch
         (snd (io_foreach (upsertDeposit cfg) batch w))))) \<and>
    (distinct (map depKey (chainDepositsTable w)) \<longrightarrow>
       distinct (map depKey (chainDepositsTable (snd (io_foreach (upsertDeposit cfg) batch
         (snd (io_foreach (upsertDeposit cfg) batch w)))))))"
  using replay_twice [OF assms, of cfg batch
      "fst (io_foreach (upsertDeposit cfg) batch w)" "snd (io_foreach (upsertDeposit cfg) batch w)"
      "fst (io_foreach (upsertDeposit cfg) batch (snd (io_foreach (upsertDeposit cfg) batch w)))"
      "snd (io_foreach (upsertDeposit cfg) batch (snd (io_foreach (upsertDeposit cfg) batch w)))"]
  by simp

section \<open>The sweep, row by row\<close>

lemma refreshOne_alt:
  "refreshOne cfg h now pd =
     (if unchanged cfg h pd then io_return ()
      else updateDepositById (dep_id pd) (NumberOfBigInt (h - dep_blockNumber pd + 1))
             (statusFor cfg (NumberOfBigInt (h - dep_blockNumber pd + 1))) now)"
  by (simp add: refreshOne_def Let_def unchanged_def)

lemma refreshOne_ok:
  assumes "faults w = None" and "sweepAccepts cfg h pd"
  shows "refreshOne cfg h now pd w =
    (Inr (), w\<lparr>chainDepositsTable := map (refreshRow cfg h now pd) (chainDepositsTable w)\<rparr>)"
proof (cases "unchanged cfg h pd")
  case True
  then have "map (refreshRow cfg h now pd) (chainDepositsTable w) = chainDepositsTable w"
    by (simp add: refreshRow_def map_idI)
  then show ?thesis using True by (simp add: refreshOne_alt io_return_def)
next
  case False
  then have "map (refreshRow cfg h now pd) (chainDepositsTable w) =
    setWhereId (dep_id pd) (NumberOfBigInt (h - dep_blockNumber pd + 1))
      (statusFor cfg (NumberOfBigInt (h - dep_blockNumber pd + 1))) now (chainDepositsTable w)"
    by (simp add: refreshRow_def setWhereId_def)
  moreover have "int4 (NumberOfBigInt (h - dep_blockNumber pd + 1))"
    using False assms(2) by (simp add: sweepAccepts_def)
  ultimately show ?thesis using False assms(1)
    by (simp add: refreshOne_alt awaitIf_ok updateDepositById_def)
qed

lemma refreshOne_rejected:
  assumes "\<not> sweepAccepts cfg h pd"
  shows "refreshOne cfg h now pd w = (Inl IoError, w)"
  using assms by (simp add: refreshOne_alt sweepAccepts_def updateDepositById_def awaitIf_rejected)

lemma foreach_refresh_run:
  "faults w = None \<Longrightarrow>
   (fst (io_foreach (refreshOne cfg h now) pds w) = Inr () \<longleftrightarrow> list_all (sweepAccepts cfg h) pds) \<and>
   (list_all (sweepAccepts cfg h) pds \<longrightarrow>
      snd (io_foreach (refreshOne cfg h now) pds w) =
        w\<lparr>chainDepositsTable :=
            map (\<lambda>r. foldl (\<lambda>r pd. refreshRow cfg h now pd r) r pds) (chainDepositsTable w)\<rparr>)"
proof (induction pds arbitrary: w)
  case Nil
  then show ?case by (simp add: io_return_def)
next
  case (Cons pd pds)
  show ?case
  proof (cases "sweepAccepts cfg h pd")
    case False
    have "io_foreach (refreshOne cfg h now) (pd # pds) w = (Inl IoError, w)"
      by (simp add: io_bind_def refreshOne_rejected [OF False])
    then show ?thesis using False by simp
  next
    case True
    let ?w1 = "w\<lparr>chainDepositsTable := map (refreshRow cfg h now pd) (chainDepositsTable w)\<rparr>"
    have f1: "faults ?w1 = None" using Cons.prems by simp
    have run: "io_foreach (refreshOne cfg h now) (pd # pds) w = io_foreach (refreshOne cfg h now) pds ?w1"
      by (simp add: io_bind_def refreshOne_ok [OF Cons.prems True])
    show ?thesis using Cons.IH [OF f1] True unfolding run by (simp add: o_def)
  qed
qed

lemma refresh_run:
  assumes "faults w = None"
  shows "(fst (refreshPendingConfirmations cfg h w) = Inr () \<longleftrightarrow>
            int4 (NumberOfBigInt h) \<and>
            list_all (sweepAccepts cfg h)
              (filter (\<lambda>r. dep_status r = Pending \<and> dep_blockNumber r \<le> NumberOfBigInt h)
                 (chainDepositsTable w))) \<and>
         (fst (refreshPendingConfirmations cfg h w) = Inr () \<longrightarrow>
            snd (refreshPendingConfirmations cfg h w) =
              w\<lparr>clockReads := Suc (clockReads w),
                chainDepositsTable :=
                  map (\<lambda>r. foldl (\<lambda>r pd. refreshRow cfg h (clock w (clockReads w)) pd r) r
                         (filter (\<lambda>r. dep_status r = Pending \<and> dep_blockNumber r \<le> NumberOfBigInt h)
                            (chainDepositsTable w)))
                      (chainDepositsTable w)\<rparr>)"
proof (cases "int4 (NumberOfBigInt h)")
  case False
  then have "refreshPendingConfirmations cfg h w = (Inl IoError, w)"
    by (simp add: refreshPendingConfirmations_def io_bind_def selectPendingDeposits_def awaitIf_rejected)
  then show ?thesis using False by simp
next
  case True
  let ?pds = "filter (\<lambda>r. dep_status r = Pending \<and> dep_blockNumber r \<le> NumberOfBigInt h)
                 (chainDepositsTable w)"
  let ?now = "clock w (clockReads w)"
  let ?w1 = "w\<lparr>clockReads := Suc (clockReads w)\<rparr>"
  have f1: "faults ?w1 = None" using assms by simp
  have run: "refreshPendingConfirmations cfg h w = io_foreach (refreshOne cfg h ?now) ?pds ?w1"
    using assms True
    by (simp add: refreshPendingConfirmations_def io_bind_def selectPendingDeposits_def awaitIf_ok
        io_lift_def getIsoTimestamp_def)
  show ?thesis using foreach_refresh_run [OF f1, of cfg h ?now ?pds] True unfolding run by simp
qed

lemma refreshRow_id [simp]: "dep_id (refreshRow cfg h now pd r) = dep_id r"
  by (simp add: refreshRow_def)

lemma foldl_refreshRow_other:
  "\<forall>pd \<in> set pds. dep_id pd \<noteq> dep_id r \<Longrightarrow> foldl (\<lambda>r pd. refreshRow cfg h now pd r) r pds = r"
  by (induction pds arbitrary: r) (auto simp: refreshRow_def)

lemma foldl_refreshRow_split:
  assumes "r \<in> set t" and "distinct (map dep_id t)"
  shows "foldl (\<lambda>r pd. refreshRow cfg h now pd r) r (filter P t) =
           (if P r then refreshRow cfg h now r r else r)"
  using assms
proof (induction t)
  case Nil
  then show ?case by simp
next
  case (Cons a t)
  show ?case
  proof (cases "a = r")
    case True
    have other: "\<forall>pd \<in> set (filter P t). dep_id pd \<noteq> dep_id (refreshRow cfg h now r r)"
      using Cons.prems(2) True by (auto simp: image_iff)
    have other': "\<forall>pd \<in> set (filter P t). dep_id pd \<noteq> dep_id r"
      using Cons.prems(2) True by (auto simp: image_iff)
    show ?thesis
      using True foldl_refreshRow_other [OF other] foldl_refreshRow_other [OF other'] by simp
  next
    case False
    then have r: "r \<in> set t" using Cons.prems(1) by simp
    have d: "distinct (map dep_id t)" using Cons.prems(2) by simp
    have "dep_id a \<noteq> dep_id r" using Cons.prems(2) r by (auto simp: image_iff)
    then have "refreshRow cfg h now a r = r" by (simp add: refreshRow_def)
    then show ?thesis using Cons.IH [OF r d] by simp
  qed
qed

lemma refresh_rows:
  assumes "faults w = None" and "distinct (map dep_id (chainDepositsTable w))"
    and "fst (refreshPendingConfirmations cfg h w) = Inr ()"
  shows "chainDepositsTable (snd (refreshPendingConfirmations cfg h w)) =
    map (\<lambda>r. if dep_status r = Pending \<and> dep_blockNumber r \<le> NumberOfBigInt h
              then refreshRow cfg h (clock w (clockReads w)) r r else r)
        (chainDepositsTable w)"
proof -
  have "map (\<lambda>r. foldl (\<lambda>r pd. refreshRow cfg h (clock w (clockReads w)) pd r) r
                        (filter (\<lambda>r. dep_status r = Pending \<and> dep_blockNumber r \<le> NumberOfBigInt h)
                           (chainDepositsTable w)))
            (chainDepositsTable w) =
        map (\<lambda>r. if dep_status r = Pending \<and> dep_blockNumber r \<le> NumberOfBigInt h
                           then refreshRow cfg h (clock w (clockReads w)) r r else r)
            (chainDepositsTable w)"
    using foldl_refreshRow_split [OF _ assms(2)] by (intro map_cong) simp_all
  then show ?thesis using refresh_run [OF assms(1), of cfg h] assms(3) by simp
qed

lemma refreshRow_self:
  "dep_confirmations (refreshRow cfg h now r r) = NumberOfBigInt (h - dep_blockNumber r + 1) \<and>
   dep_status (refreshRow cfg h now r r) = statusFor cfg (NumberOfBigInt (h - dep_blockNumber r + 1))"
  by (auto simp: refreshRow_def unchanged_def)

section \<open>At most one grant per reference\<close>

lemma bind_lift [simp]: "io_bind (io_lift g) f w = f (fst (g w)) (snd (g w))"
  by (simp add: io_bind_def io_lift_def split: prod.splits)

lemma bind_return [simp]: "io_bind (io_return a) f w = f a w"
  by (simp add: io_bind_def io_return_def)

lemma snd_return [simp]: "snd (io_return a w) = w" "fst (io_return a w) = Inr a"
  by (simp_all add: io_return_def)

lemma snd_throw [simp]: "snd (io_throw e w) = w" "fst (io_throw e w) = Inl e"
  by (simp_all add: io_throw_def)

lemma await_post:
  assumes "P w" and "\<And>k. P (snd (stmt (w\<lparr>faults := k\<rparr>)))"
  shows "P (snd (await stmt w))"
  using await_cases [of stmt w] assms by auto

lemma bind_await_post:
  assumes "P w"
    and "\<And>k. P (snd (f (fst (stmt (w\<lparr>faults := k\<rparr>))) (snd (stmt (w\<lparr>faults := k\<rparr>)))))"
  shows "P (snd (io_bind (await stmt) f w))"
  using await_cases [of stmt w] assms by (auto simp: io_bind_def)

lemma awaitIf_post:
  assumes "P w" and "\<And>k. accepted w \<Longrightarrow> P (snd (stmt (w\<lparr>faults := k\<rparr>)))"
  shows "P (snd (awaitIf accepted stmt w))"
  using awaitIf_cases [of accepted stmt w] assms by auto

lemma bind_awaitIf_post:
  assumes "P w"
    and "\<And>k. accepted w \<Longrightarrow>
      P (snd (f (fst (stmt (w\<lparr>faults := k\<rparr>))) (snd (stmt (w\<lparr>faults := k\<rparr>)))))"
  shows "P (snd (io_bind (awaitIf accepted stmt) f w))"
  using awaitIf_cases [of accepted stmt w] assms by (auto simp: io_bind_def)

lemma post_bind_lift: "post P (f (fst (g w))) (snd (g w)) \<Longrightarrow> post P (io_bind (io_lift g) f) w"
  by (simp add: post_def)

lemma post_bind_await:
  "P w \<Longrightarrow> (\<And>k. post P (f (fst (stmt (w\<lparr>faults := k\<rparr>)))) (snd (stmt (w\<lparr>faults := k\<rparr>)))) \<Longrightarrow>
   post P (io_bind (await stmt) f) w"
  unfolding post_def by (rule bind_await_post)

lemma post_await:
  "P w \<Longrightarrow> (\<And>k. P (snd (stmt (w\<lparr>faults := k\<rparr>)))) \<Longrightarrow> post P (await stmt) w"
  unfolding post_def by (rule await_post)

lemma post_bind_awaitIf:
  "P w \<Longrightarrow>
   (\<And>k. accepted w \<Longrightarrow>
      post P (f (fst (stmt (w\<lparr>faults := k\<rparr>)))) (snd (stmt (w\<lparr>faults := k\<rparr>)))) \<Longrightarrow>
   post P (io_bind (awaitIf accepted stmt) f) w"
  unfolding post_def by (rule bind_awaitIf_post)

lemma post_awaitIf:
  "P w \<Longrightarrow> (\<And>k. accepted w \<Longrightarrow> P (snd (stmt (w\<lparr>faults := k\<rparr>)))) \<Longrightarrow>
   post P (awaitIf accepted stmt) w"
  unfolding post_def by (rule awaitIf_post)

lemma post_return: "P w \<Longrightarrow> post P (io_return a) w"
  by (simp add: post_def)

lemma post_throw: "P w \<Longrightarrow> post P (io_throw e) w"
  by (simp add: post_def)

lemma post_if: "(c \<Longrightarrow> post P a w) \<Longrightarrow> (\<not> c \<Longrightarrow> post P b w) \<Longrightarrow> post P (if c then a else b) w"
  by simp

lemma post_case_option:
  "(x = None \<Longrightarrow> post P a w) \<Longrightarrow> (\<And>y. x = Some y \<Longrightarrow> post P (b y) w) \<Longrightarrow>
   post P (case x of None \<Rightarrow> a | Some y \<Rightarrow> b y) w"
  by (cases x) simp_all

lemma post_case_list:
  "(x = [] \<Longrightarrow> post P a w) \<Longrightarrow> (\<And>y ys. x = y # ys \<Longrightarrow> post P (b y ys) w) \<Longrightarrow>
   post P (case x of [] \<Rightarrow> a | y # ys \<Rightarrow> b y ys) w"
  by (cases x) simp_all

lemma post_bind:
  "post Q m w \<Longrightarrow> (\<And>w'. Q w' \<Longrightarrow> P w') \<Longrightarrow> (\<And>a w'. Q w' \<Longrightarrow> post P (f a) w') \<Longrightarrow>
   post P (io_bind m f) w"
  unfolding post_def by (cases "m w") (auto simp: io_bind_def split: sum.splits)

lemmas post_rules = post_bind_lift post_bind_await post_bind_awaitIf post_await post_awaitIf
  post_return post_throw post_if post_case_option post_case_list

lemmas stmt_defs = updateUserCreditsReturning_def insertCreditLedger_def
  selectPaymentByProviderId_def insertPayment_def updatePaymentById_def

lemmas env_defs = getIsoTimestamp_def randomUUID_def

lemma ppid_setPayment [simp]:
  "pay_providerPaymentId (setPayment i s raw now p) = pay_providerPaymentId p"
  by (simp add: setPayment_def)

lemma grantCredits_tables:
  "post (\<lambda>w'. ppids w' = ppids w \<and> grantedOnce (gi_referenceId inp) w w') (grantCredits inp) w"
  unfolding grantCredits_def stmt_defs
  by (intro post_rules) (simp_all add: env_defs ppids_def grantedOnce_def)

lemma post_bind_grantCredits:
  assumes "\<And>w'. ppids w' = ppids w \<Longrightarrow> grantedOnce (gi_referenceId inp) w w' \<Longrightarrow> P w'"
    and "\<And>a w'. ppids w' = ppids w \<Longrightarrow> grantedOnce (gi_referenceId inp) w w' \<Longrightarrow> post P (f a) w'"
  shows "post P (io_bind (grantCredits inp) f) w"
  using grantCredits_tables [of w inp] assms by (intro post_bind [where Q = "\<lambda>w'. ppids w' = ppids w \<and> grantedOnce (gi_referenceId inp) w w'"]) auto

lemma handleUsdtPayment_step:
  "post (grantStep (''usdt_'' @ transactionId payload) w) (handleUsdtPayment env payload) w"
  unfolding handleUsdtPayment_def Let_def stmt_defs
  by (intro post_rules post_bind_grantCredits)
    (auto simp: env_defs grantStep_def ppids_def grantedOnce_def find_None_iff)

lemma settleStripe_step:
  "post (grantStep ppid w) (settleStripe userId creditsToBuy ppid amount cur raw why meta) w"
  unfolding settleStripe_def stmt_defs
  by (intro post_rules post_bind_grantCredits)
    (auto simp: env_defs grantStep_def ppids_def grantedOnce_def find_None_iff)

lemma handleStripeEvent_step:
  "\<exists>ppid. post (grantStep ppid w) (handleStripeEvent event) w"
proof (cases event)
  case (CheckoutSessionCompleted session)
  have "post (grantStep (''stripe_'' @ cs_id session) w) (handleStripeEvent event) w"
    unfolding handleStripeEvent_def CheckoutSessionCompleted
    by (auto simp: grantStep_def intro!: post_return settleStripe_step split: option.splits)
  then show ?thesis ..
next
  case (PaymentIntentSucceeded paymentIntent)
  have "post (grantStep (''stripe_pi_'' @ pi_id paymentIntent) w) (handleStripeEvent event) w"
    unfolding handleStripeEvent_def PaymentIntentSucceeded
    by (auto simp: grantStep_def intro!: post_return settleStripe_step split: option.splits)
  then show ?thesis ..
next
  case (OtherStripeEvent x)
  have "post (grantStep [] w) (handleStripeEvent event) w"
    unfolding handleStripeEvent_def OtherStripeEvent
    by (auto simp: grantStep_def intro!: post_return)
  then show ?thesis ..
qed

lemma refCount_le_1: "ledgerInv w \<Longrightarrow> refCount r (creditLedgerTable w) \<le> 1"
proof (cases "\<exists>e \<in> set (creditLedgerTable w). referenceId e = Some r")
  case True
  assume "ledgerInv w"
  with True show ?thesis by (auto simp: ledgerInv_def)
next
  case False
  then have "filter (\<lambda>e. referenceId e = Some r) (creditLedgerTable w) = []"
    by (simp add: filter_empty_conv)
  then show ?thesis by (simp add: refCount_def)
qed

lemma refCount_0: "ledgerInv w \<Longrightarrow> r \<notin> set (ppids w) \<Longrightarrow> refCount r (creditLedgerTable w) = 0"
proof -
  assume inv: "ledgerInv w" and r: "r \<notin> set (ppids w)"
  have "\<not> (\<exists>e \<in> set (creditLedgerTable w). referenceId e = Some r)"
    using inv r by (auto simp: ledgerInv_def)
  then have "filter (\<lambda>e. referenceId e = Some r) (creditLedgerTable w) = []"
    by (simp add: filter_empty_conv)
  then show ?thesis by (simp add: refCount_def)
qed

lemma grantStep_inv:
  assumes step: "grantStep ppid w w'" and inv: "ledgerInv w"
  shows "ledgerInv w'"
proof -
  from step consider
    (same) "ppids w' = ppids w" "creditLedgerTable w' = creditLedgerTable w"
    | (paid) "ppid \<notin> set (ppids w)" "ppids w' = ppids w @ [ppid]"
        "creditLedgerTable w' = creditLedgerTable w"
    | (granted) e where "ppid \<notin> set (ppids w)" "ppids w' = ppids w @ [ppid]"
        "creditLedgerTable w' = creditLedgerTable w @ [e]" "referenceId e = Some ppid"
    by (auto simp: grantStep_def grantedOnce_def)
  then show ?thesis
  proof cases
    case same
    with inv show ?thesis by (simp add: ledgerInv_def cong: option.case_cong)
  next
    case paid
    with inv show ?thesis by (auto simp: ledgerInv_def split: option.splits)
  next
    case granted
    have zero: "refCount ppid (creditLedgerTable w) = 0"
      using inv granted(1) by (rule refCount_0)
    show ?thesis
      unfolding ledgerInv_def
    proof
      fix e' assume e': "e' \<in> set (creditLedgerTable w')"
      show "case referenceId e' of None \<Rightarrow> True
        | Some r \<Rightarrow> refCount r (creditLedgerTable w') = 1 \<and> r \<in> set (ppids w')"
      proof (cases "referenceId e'")
        case None
        then show ?thesis by simp
      next
        case (Some r)
        show ?thesis
        proof (cases "r = ppid")
          case True
          then show ?thesis using Some zero granted by (simp add: refCount_def)
        next
          case False
          with e' granted Some have "e' \<in> set (creditLedgerTable w)" by auto
          with inv Some have "refCount r (creditLedgerTable w) = 1" "r \<in> set (ppids w)"
            by (auto simp: ledgerInv_def)
          then show ?thesis using Some False granted by (simp add: refCount_def)
        qed
      qed
    qed
  qed
qed

lemma ledgerInv_faults [simp]: "ledgerInv (w\<lparr>faults := k\<rparr>) = ledgerInv w"
  by (simp add: ledgerInv_def ppids_def cong: option.case_cong)

lemma deliver_inv: "ledgerInv w \<Longrightarrow> ledgerInv (deliver env d w)"
proof -
  assume inv: "ledgerInv w"
  obtain x k where d: "d = (x, k)" by (cases d)
  let ?w = "w\<lparr>faults := k\<rparr>"
  have inv': "ledgerInv ?w" using inv by simp
  show ?thesis
  proof (cases x)
    case (StripeEvent event)
    from handleStripeEvent_step [of ?w event] obtain ppid where
      "grantStep ppid ?w (snd (handleStripeEvent event ?w))" by (auto simp: post_def)
    from grantStep_inv [OF this inv'] show ?thesis using d StripeEvent by simp
  next
    case (UsdtWebhook payload)
    from handleUsdtPayment_step [of payload ?w env]
    have "grantStep (''usdt_'' @ transactionId payload) ?w (snd (handleUsdtPayment env payload ?w))"
      by (simp add: post_def)
    from grantStep_inv [OF this inv'] show ?thesis using d UsdtWebhook by simp
  qed
qed

lemma deliverAll_inv: "ledgerInv w \<Longrightarrow> ledgerInv (deliverAll env ds w)"
  by (induction ds arbitrary: w) (simp_all add: deliver_inv)

text \<open>
  Claim C1. Take a database in which every ledger entry that carries a reference id is the
  only entry with that reference and has its payment record (an empty ledger is such a
  database). After any sequence of deliveries processed one after the other through
  \<open>handleStripeEvent\<close> and \<open>handleUsdtPayment\<close>, each of them completing or
  rejecting at any awaited call, the ledger holds at most one entry for any given reference
  id. (The chain worker never writes the ledger, so a (transaction hash, log index) pair
  tags no entry at all.)
\<close>

theorem at_most_one_grant:
  assumes "ledgerInv w"
  shows "refCount r (creditLedgerTable (deliverAll env ds w)) \<le> 1"
  using assms by (intro refCount_le_1 deliverAll_inv)

section \<open>The cursor\<close>

lemma chainStep_refl [simp]: "chainStep w w"
  by (simp add: chainStep_def)


lemma chainStep_env [simp]:
  "chainStep w (w'\<lparr>faults := k\<rparr>) = chainStep w w'"
  "chainStep (w\<lparr>faults := k\<rparr>) w' = chainStep w w'"
  "chainStep w (w'\<lparr>clockReads := n\<rparr>) = chainStep w w'"
  "chainStep (w\<lparr>clockReads := n\<rparr>) w' = chainStep w w'"
  by (simp_all add: chainStep_def depKeys_def)

















lemma cursorPost_env [simp]:
  "cursorPost cfg node w (w'\<lparr>faults := k\<rparr>) = cursorPost cfg node w w'"
  "cursorPost cfg node w (w'\<lparr>clockReads := n\<rparr>) = cursorPost cfg node w w'"
  by (simp_all add: cursorPost_def cursorOf_def recordedAll_def depKeys_def)





lemmas run_defs = io_bind_def io_lift_def io_return_def io_throw_def await_def
  getIsoTimestamp_def randomUUID_def

lemmas worker_defs = pollOnce_def getCursorBlock_def setCursorBlock_def scanToken_def
  refreshPendingConfirmations_def refreshOne_def upsertDeposit_def depositRow_def
  selectWorkerState_def upsertWorkerState_def upsertByKey_def selectPendingDeposits_def
  updateDepositById_def setWhereId_def insertDepositOnConflictUpdate_def onConflictDoUpdate_def
  conflicts_def fromBlockOf_def trackedTokens_def WORKER_CURSOR_KEY_def statusFor_def
  confirmationsBigInt_def inputOfLog_def runPollCycle_def awaitIf_def int4_def deposit_int4_def
  inputAccepted_def

lemmas example_defs = exampleToken_def exampleConfig_def freshWorld_def exampleInput_def
  quietNode_def cursorAt_def


section \<open>The confirmation policy\<close>

lemma upsertDeposit_table:
  "chainDepositsTable (snd (upsertDeposit cfg inp w)) = chainDepositsTable w \<and>
   fst (upsertDeposit cfg inp w) = Inl IoError \<or>
   inputAccepted cfg inp \<and> fst (upsertDeposit cfg inp w) = Inr () \<and>
   (\<exists>now. chainDepositsTable (snd (upsertDeposit cfg inp w)) =
      onConflictDoUpdate (depositRow cfg inp now) (chainDepositsTable w))"
proof -
  let ?now = "clock w (clockReads w)"
  let ?w1 = "w\<lparr>clockReads := Suc (clockReads w)\<rparr>"
  let ?ok = "\<lambda>w::world. deposit_int4 (depositRow cfg inp ?now)"
  let ?stmt = "\<lambda>w. ((), w\<lparr>chainDepositsTable :=
      onConflictDoUpdate (depositRow cfg inp ?now) (chainDepositsTable w)\<rparr>)"
  have e: "upsertDeposit cfg inp w = awaitIf ?ok ?stmt ?w1"
    by (simp add: upsertDeposit_def getIsoTimestamp_def insertDepositOnConflictUpdate_def)
  from awaitIf_cases [of ?ok ?stmt ?w1] show ?thesis
  proof
    assume "awaitIf ?ok ?stmt ?w1 = (Inl IoError, ?w1)"
    then show ?thesis by (simp add: e)
  next
    assume "?ok ?w1 \<and> (\<exists>k. awaitIf ?ok ?stmt ?w1 =
      (Inr (fst (?stmt (?w1\<lparr>faults := k\<rparr>))), snd (?stmt (?w1\<lparr>faults := k\<rparr>))))"
    then obtain k where ok: "inputAccepted cfg inp" and "awaitIf ?ok ?stmt ?w1 =
      (Inr (fst (?stmt (?w1\<lparr>faults := k\<rparr>))), snd (?stmt (?w1\<lparr>faults := k\<rparr>)))" by auto
    then have "fst (upsertDeposit cfg inp w) = Inr () \<and>
      chainDepositsTable (snd (upsertDeposit cfg inp w)) =
        onConflictDoUpdate (depositRow cfg inp ?now) (chainDepositsTable w)"
      by (simp add: e)
    with ok show ?thesis by blast
  qed
qed

lemma upsertConfirmations_formula:
  "upsertConfirmations inp =
     (if in_blockNumber inp \<le> in_latestBlock inp
      then min (in_latestBlock inp - in_blockNumber inp + 1) MAX_SAFE_INTEGER else 0)"
  by (simp add: upsertConfirmations_eq confirmationsBigInt_def MAX_SAFE_INTEGER_def)

lemma upsertConfirmations_int4:
  "int4 (upsertConfirmations inp) \<Longrightarrow>
   upsertConfirmations inp =
     (if in_blockNumber inp \<le> in_latestBlock inp
      then in_latestBlock inp - in_blockNumber inp + 1 else 0)"
  by (auto simp: upsertConfirmations_formula int4_def MAX_SAFE_INTEGER_def min_def split: if_splits)

lemma int4_NumberOfBigInt: "int4 (NumberOfBigInt b) \<longleftrightarrow> int4 b"
proof
  assume a: "int4 (NumberOfBigInt b)"
  then have "NumberOfBigInt b = b" by (rule NumberOfBigInt_int4)
  with a show "int4 b" by simp
next
  assume "int4 b"
  then show "int4 (NumberOfBigInt b)" using int4_safe [of b] by (simp add: NumberOfBigInt_exact_abs)
qed

lemma inputAccepted_iff:
  "inputAccepted cfg inp \<longleftrightarrow>
     int4 (chainId cfg) \<and> int4 (in_logIndex inp) \<and> int4 (in_blockNumber inp) \<and>
     int4 (if in_blockNumber inp \<le> in_latestBlock inp
           then in_latestBlock inp - in_blockNumber inp + 1 else 0)"
proof -
  let ?count = "if in_blockNumber inp \<le> in_latestBlock inp
           then in_latestBlock inp - in_blockNumber inp + 1 else 0"
  have "int4 (upsertConfirmations inp) \<longleftrightarrow> int4 ?count"
  proof
    assume a: "int4 (upsertConfirmations inp)"
    then have "upsertConfirmations inp = ?count" by (rule upsertConfirmations_int4)
    with a show "int4 ?count" by simp
  next
    assume a: "int4 ?count"
    then have "upsertConfirmations inp = ?count"
      using int4_safe [of ?count] by (auto simp: upsertConfirmations_formula split: if_splits)
    with a show "int4 (upsertConfirmations inp)" by simp
  qed
  then show ?thesis by (simp add: inputAccepted_def int4_NumberOfBigInt)
qed

lemma upsertDeposit_completes:
  "faults w = None \<Longrightarrow> fst (upsertDeposit cfg inp w) = Inr () \<longleftrightarrow> inputAccepted cfg inp"
  by (cases "inputAccepted cfg inp") (simp_all add: upsertDeposit_ok upsertDeposit_rejected)

lemma onConflict_rows:
  "r \<in> set (onConflictDoUpdate row t) \<Longrightarrow>
   r \<in> set t \<or> r = row \<or>
   (\<exists>r0 \<in> set t. r = r0\<lparr>dep_confirmations := dep_confirmations row, dep_status := dep_status row,
                          dep_updatedAt := dep_updatedAt row\<rparr>)"
  by (auto simp: onConflictDoUpdate_def split: if_splits)

lemma setWhereId_nth:
  "i < length t \<Longrightarrow>
   setWhereId k c s now t ! i =
     (if dep_id (t ! i) = k
      then (t ! i)\<lparr>dep_confirmations := c, dep_status := s, dep_updatedAt := now\<rparr>
      else t ! i)"
  by (simp add: setWhereId_def)

lemma distinct_ids_same:
  "distinct (map dep_id t) \<Longrightarrow> x \<in> set t \<Longrightarrow> y \<in> set t \<Longrightarrow> dep_id x = dep_id y \<Longrightarrow> x = y"
  by (meson distinct_map inj_onD)

lemma int4_ceiling: "int4 n \<Longrightarrow> n \<le> MAX_SAFE_INTEGER"
  by (simp add: int4_def MAX_SAFE_INTEGER_def)

lemma deposit_int4_count [simp]:
  "deposit_int4 (r\<lparr>dep_confirmations := c, dep_status := s, dep_updatedAt := u\<rparr>) \<longleftrightarrow>
     int4 (dep_chainId r) \<and> int4 (dep_logIndex r) \<and> int4 (dep_blockNumber r) \<and> int4 c"
  by (simp add: deposit_int4_def)

lemma sweep_rows:
  assumes cols: "list_all deposit_int4 (chainDepositsTable w)"
    and ids: "distinct (map dep_id (chainDepositsTable w))"
  shows "length (chainDepositsTable (snd (refreshPendingConfirmations cfg head w))) =
      length (chainDepositsTable w) \<and>
    (\<forall>i < length (chainDepositsTable w).
       deposit_int4 (chainDepositsTable (snd (refreshPendingConfirmations cfg head w)) ! i) \<and>
       (chainDepositsTable (snd (refreshPendingConfirmations cfg head w)) ! i = chainDepositsTable w ! i \<or>
        dep_status (chainDepositsTable w ! i) = Pending \<and>
        dep_blockNumber (chainDepositsTable w ! i) \<le> head \<and>
        dep_confirmations (chainDepositsTable (snd (refreshPendingConfirmations cfg head w)) ! i) =
          head - dep_blockNumber (chainDepositsTable w ! i) + 1 \<and>
        dep_status (chainDepositsTable (snd (refreshPendingConfirmations cfg head w)) ! i) =
          statusFor cfg (head - dep_blockNumber (chainDepositsTable w ! i) + 1)))"
proof -
  let ?t = "chainDepositsTable w"
  let ?t' = "chainDepositsTable (snd (refreshPendingConfirmations cfg head w))"
  have old: "\<And>r. r \<in> set ?t \<Longrightarrow> deposit_int4 r" using cols by (simp add: list_all_iff)
  let ?I = "\<lambda>t'. length t' = length ?t \<and>
    (\<forall>i < length ?t. dep_id (t' ! i) = dep_id (?t ! i) \<and> deposit_int4 (t' ! i) \<and>
       (t' ! i = ?t ! i \<or>
        dep_status (?t ! i) = Pending \<and> dep_blockNumber (?t ! i) \<le> head \<and>
        dep_confirmations (t' ! i) = head - dep_blockNumber (?t ! i) + 1 \<and>
        dep_status (t' ! i) = statusFor cfg (head - dep_blockNumber (?t ! i) + 1)))"
  have "?I ?t'"
  proof (rule refresh_inv)
    show "?I ?t" using old by simp
  next
    fix pd now' t'
    assume pd: "pd \<in> set ?t" and pend: "dep_status pd = Pending"
      and below: "dep_blockNumber pd \<le> NumberOfBigInt head"
      and h4: "int4 (NumberOfBigInt head)"
      and c4: "int4 (NumberOfBigInt (head - dep_blockNumber pd + 1))" and i: "?I t'"
    let ?c = "NumberOfBigInt (head - dep_blockNumber pd + 1)"
    let ?s = "setWhereId (dep_id pd) ?c (statusFor cfg ?c) now' t'"
    from c4 have c: "?c = head - dep_blockNumber pd + 1" by (rule NumberOfBigInt_int4)
    from h4 have "NumberOfBigInt head = head" by (rule NumberOfBigInt_int4)
    with below have below': "dep_blockNumber pd \<le> head" by simp
    from i have len: "length t' = length ?t" by blast
    have "\<forall>j < length ?t. dep_id (?s ! j) = dep_id (?t ! j) \<and> deposit_int4 (?s ! j) \<and>
       (?s ! j = ?t ! j \<or>
        dep_status (?t ! j) = Pending \<and> dep_blockNumber (?t ! j) \<le> head \<and>
        dep_confirmations (?s ! j) = head - dep_blockNumber (?t ! j) + 1 \<and>
        dep_status (?s ! j) = statusFor cfg (head - dep_blockNumber (?t ! j) + 1))"
    proof (intro allI impI)
      fix j assume j: "j < length ?t"
      with len have j': "j < length t'" by simp
      from i j have ij: "dep_id (t' ! j) = dep_id (?t ! j)" "deposit_int4 (t' ! j)"
        "t' ! j = ?t ! j \<or>
         dep_status (?t ! j) = Pending \<and> dep_blockNumber (?t ! j) \<le> head \<and>
         dep_confirmations (t' ! j) = head - dep_blockNumber (?t ! j) + 1 \<and>
         dep_status (t' ! j) = statusFor cfg (head - dep_blockNumber (?t ! j) + 1)"
        by blast+
      show "dep_id (?s ! j) = dep_id (?t ! j) \<and> deposit_int4 (?s ! j) \<and>
       (?s ! j = ?t ! j \<or>
        dep_status (?t ! j) = Pending \<and> dep_blockNumber (?t ! j) \<le> head \<and>
        dep_confirmations (?s ! j) = head - dep_blockNumber (?t ! j) + 1 \<and>
        dep_status (?s ! j) = statusFor cfg (head - dep_blockNumber (?t ! j) + 1))"
      proof (cases "dep_id (t' ! j) = dep_id pd")
        case False
        then show ?thesis using ij by (simp add: setWhereId_nth [OF j'])
      next
        case True
        have "?t ! j \<in> set ?t" using j by simp
        from distinct_ids_same [OF ids this pd] True ij(1) have same: "?t ! j = pd" by simp
        have "dep_confirmations (?s ! j) = head - dep_blockNumber (?t ! j) + 1"
          "dep_status (?s ! j) = statusFor cfg (head - dep_blockNumber (?t ! j) + 1)"
          using True c same by (simp_all add: setWhereId_nth [OF j'])
        moreover have "deposit_int4 (?s ! j)"
          using True c4 ij(2) by (simp add: setWhereId_nth [OF j'] deposit_int4_def)
        moreover have "dep_id (?s ! j) = dep_id (?t ! j)"
          using ij(1) by (simp add: setWhereId_nth [OF j'])
        moreover have "dep_status (?t ! j) = Pending" "dep_blockNumber (?t ! j) \<le> head"
          using same pend below' by simp_all
        ultimately show ?thesis by blast
      qed
    qed
    moreover have "length ?s = length ?t" using len by (simp add: setWhereId_def)
    ultimately show "?I ?s" by blast
  qed
  then show ?thesis by blast
qed

text \<open>
  Claim C3, as amended. On first observation the count that \<open>upsertDeposit\<close> computes and
  binds to its insert is \<open>head - observed + 1\<close> capped at \<open>MAX_SAFE_INTEGER\<close> when
  \<open>head \<ge> observed\<close> and 0 otherwise, and the status it binds is confirmed if and only if
  that count reaches the configured minimum. The insert is accepted only if the count fits
  the \<open>integer\<close> column, so whenever \<open>upsertDeposit\<close> completes, the record of the observed
  log has exactly \<open>head - observed + 1\<close> (0 when the head is behind); with no call
  rejecting for a reason of the environment it completes if and only if the chain id, the
  log index, the observed block and that count fit the \<open>integer\<close> columns. On re-evaluation,
  whenever \<open>refreshPendingConfirmations\<close> completes on a table with unique ids and
  \<open>integer\<close> columns in range and no call rejects for a reason of the environment, every
  pending record at or below the head has exactly \<open>head - block + 1\<close>, and every other
  record (confirmed, or above the head) is left as it is; and whether the sweep completes
  or rejects at any awaited call, every record is either as it was, or was pending at or
  below the head and has exactly \<open>head - block + 1\<close>. On both paths the status of the
  record is confirmed if and only if its count reaches the configured minimum.
\<close>

theorem confirmation_policy:
  "dep_confirmations (depositRow cfg inp now) =
     (if in_blockNumber inp \<le> in_latestBlock inp
      then min (in_latestBlock inp - in_blockNumber inp + 1) MAX_SAFE_INTEGER else 0) \<and>
   (dep_status (depositRow cfg inp now) = Confirmed \<longleftrightarrow>
      minConfirmations cfg \<le> dep_confirmations (depositRow cfg inp now)) \<and>
   (fst (upsertDeposit cfg inp w) = Inr () \<longrightarrow>
      (\<exists>r \<in> set (chainDepositsTable (snd (upsertDeposit cfg inp w))). depKey r = inputKey inp) \<and>
      (\<forall>r \<in> set (chainDepositsTable (snd (upsertDeposit cfg inp w))).
         depKey r = inputKey inp \<longrightarrow>
           dep_confirmations r =
             (if in_blockNumber inp \<le> in_latestBlock inp
              then in_latestBlock inp - in_blockNumber inp + 1 else 0) \<and>
           (dep_status r = Confirmed \<longleftrightarrow> minConfirmations cfg \<le> dep_confirmations r))) \<and>
   (faults w = None \<and> distinct (map dep_id (chainDepositsTable w)) \<and>
    list_all deposit_int4 (chainDepositsTable w) \<and>
    fst (refreshPendingConfirmations cfg head w) = Inr () \<longrightarrow>
      length (chainDepositsTable (snd (refreshPendingConfirmations cfg head w))) =
        length (chainDepositsTable w) \<and>
      (\<forall>i < length (chainDepositsTable w).
         (if dep_status (chainDepositsTable w ! i) = Pending \<and>
             dep_blockNumber (chainDepositsTable w ! i) \<le> head
          then dep_confirmations (chainDepositsTable (snd (refreshPendingConfirmations cfg head w)) ! i) =
                 head - dep_blockNumber (chainDepositsTable w ! i) + 1 \<and>
               (dep_status (chainDepositsTable (snd (refreshPendingConfirmations cfg head w)) ! i) = Confirmed \<longleftrightarrow>
                  minConfirmations cfg \<le>
                    dep_confirmations (chainDepositsTable (snd (refreshPendingConfirmations cfg head w)) ! i))
          else chainDepositsTable (snd (refreshPendingConfirmations cfg head w)) ! i =
                 chainDepositsTable w ! i))) \<and>
   (faults w = None \<longrightarrow>
      (fst (upsertDeposit cfg inp w) = Inr () \<longleftrightarrow>
         int4 (chainId cfg) \<and> int4 (in_logIndex inp) \<and> int4 (in_blockNumber inp) \<and>
         int4 (if in_blockNumber inp \<le> in_latestBlock inp
               then in_latestBlock inp - in_blockNumber inp + 1 else 0))) \<and>
   (distinct (map dep_id (chainDepositsTable w)) \<and> list_all deposit_int4 (chainDepositsTable w) \<longrightarrow>
      (\<forall>i < length (chainDepositsTable w).
         chainDepositsTable (snd (refreshPendingConfirmations cfg head w)) ! i = chainDepositsTable w ! i \<or>
         dep_status (chainDepositsTable w ! i) = Pending \<and>
         dep_blockNumber (chainDepositsTable w ! i) \<le> head \<and>
         dep_confirmations (chainDepositsTable (snd (refreshPendingConfirmations cfg head w)) ! i) =
           head - dep_blockNumber (chainDepositsTable w ! i) + 1 \<and>
         (dep_status (chainDepositsTable (snd (refreshPendingConfirmations cfg head w)) ! i) = Confirmed \<longleftrightarrow>
            minConfirmations cfg \<le>
              dep_confirmations (chainDepositsTable (snd (refreshPendingConfirmations cfg head w)) ! i))))"
proof -
  let ?t = "chainDepositsTable w"
  let ?t' = "chainDepositsTable (snd (refreshPendingConfirmations cfg head w))"
  let ?u = "chainDepositsTable (snd (upsertDeposit cfg inp w))"
  let ?count = "if in_blockNumber inp \<le> in_latestBlock inp
              then in_latestBlock inp - in_blockNumber inp + 1 else 0"
  have a1: "dep_confirmations (depositRow cfg inp now) =
     (if in_blockNumber inp \<le> in_latestBlock inp
      then min (in_latestBlock inp - in_blockNumber inp + 1) MAX_SAFE_INTEGER else 0)"
    by (simp add: upsertConfirmations_formula)
  have a2: "dep_status (depositRow cfg inp now) = Confirmed \<longleftrightarrow>
      minConfirmations cfg \<le> dep_confirmations (depositRow cfg inp now)"
    by (simp add: statusFor_def)
  have a3: "fst (upsertDeposit cfg inp w) = Inr () \<longrightarrow>
      (\<exists>r \<in> set ?u. depKey r = inputKey inp) \<and>
      (\<forall>r \<in> set ?u. depKey r = inputKey inp \<longrightarrow>
           dep_confirmations r = ?count \<and>
           (dep_status r = Confirmed \<longleftrightarrow> minConfirmations cfg \<le> dep_confirmations r))"
  proof
    assume "fst (upsertDeposit cfg inp w) = Inr ()"
    with upsertDeposit_table [of cfg inp w] obtain now' where
      ok: "inputAccepted cfg inp" and u: "?u = onConflictDoUpdate (depositRow cfg inp now') ?t"
      by auto
    from ok have c: "upsertConfirmations inp = ?count"
      by (intro upsertConfirmations_int4) (simp add: inputAccepted_def)
    have "inputKey inp \<in> set (map depKey ?u)"
      unfolding u by (simp add: keys_onConflictDoUpdate)
    then have 1: "\<exists>r \<in> set ?u. depKey r = inputKey inp" by auto
    have 2: "\<forall>r \<in> set ?u. depKey r = inputKey inp \<longrightarrow>
           dep_confirmations r = ?count \<and>
           (dep_status r = Confirmed \<longleftrightarrow> minConfirmations cfg \<le> dep_confirmations r)"
    proof (intro ballI impI)
      fix r assume "r \<in> set ?u" and k: "depKey r = inputKey inp"
      then have "r \<in> set (onConflictDoUpdate (depositRow cfg inp now') ?t)" by (simp only: u)
      from onConflict_conflicting [OF this] k
      have "dep_confirmations r = upsertConfirmations inp"
        and "dep_status r = statusFor cfg (upsertConfirmations inp)" by simp_all
      then show "dep_confirmations r = ?count \<and>
           (dep_status r = Confirmed \<longleftrightarrow> minConfirmations cfg \<le> dep_confirmations r)"
        unfolding c by (simp add: statusFor_def)
    qed
    from 1 2 show "(\<exists>r \<in> set ?u. depKey r = inputKey inp) \<and>
      (\<forall>r \<in> set ?u. depKey r = inputKey inp \<longrightarrow>
           dep_confirmations r = ?count \<and>
           (dep_status r = Confirmed \<longleftrightarrow> minConfirmations cfg \<le> dep_confirmations r))" ..
  qed
  have b: "faults w = None \<and> distinct (map dep_id ?t) \<and> list_all deposit_int4 ?t \<and>
    fst (refreshPendingConfirmations cfg head w) = Inr () \<longrightarrow>
      length ?t' = length ?t \<and>
      (\<forall>i < length ?t.
         (if dep_status (?t ! i) = Pending \<and> dep_blockNumber (?t ! i) \<le> head
          then dep_confirmations (?t' ! i) = head - dep_blockNumber (?t ! i) + 1 \<and>
               (dep_status (?t' ! i) = Confirmed \<longleftrightarrow> minConfirmations cfg \<le> dep_confirmations (?t' ! i))
          else ?t' ! i = ?t ! i))"
  proof
    assume h: "faults w = None \<and> distinct (map dep_id ?t) \<and> list_all deposit_int4 ?t \<and>
      fst (refreshPendingConfirmations cfg head w) = Inr ()"
    then have f: "faults w = None" and d: "distinct (map dep_id ?t)"
      and cols: "list_all deposit_int4 ?t"
      and fin: "fst (refreshPendingConfirmations cfg head w) = Inr ()" by blast+
    let ?now = "clock w (clockReads w)"
    from refresh_run [OF f, of cfg head] fin have h4: "int4 (NumberOfBigInt head)"
      and acc: "list_all (sweepAccepts cfg head)
        (filter (\<lambda>r. dep_status r = Pending \<and> dep_blockNumber r \<le> NumberOfBigInt head) ?t)"
      by blast+
    from h4 have n: "NumberOfBigInt head = head" by (rule NumberOfBigInt_int4)
    let ?g = "\<lambda>r. if dep_status r = Pending \<and> dep_blockNumber r \<le> head
                   then refreshRow cfg head ?now r r else r"
    have tbl: "?t' = map ?g ?t" using refresh_rows [OF f d fin] n by simp
    have len: "length (map ?g ?t) = length ?t" by simp
    have rows: "\<forall>i < length ?t.
         (if dep_status (?t ! i) = Pending \<and> dep_blockNumber (?t ! i) \<le> head
          then dep_confirmations (map ?g ?t ! i) = head - dep_blockNumber (?t ! i) + 1 \<and>
               (dep_status (map ?g ?t ! i) = Confirmed \<longleftrightarrow>
                  minConfirmations cfg \<le> dep_confirmations (map ?g ?t ! i))
          else map ?g ?t ! i = ?t ! i)"
    proof (intro allI impI)
      fix i assume i: "i < length ?t"
      let ?r = "?t ! i"
      let ?c = "head - dep_blockNumber ?r + 1"
      show "if dep_status ?r = Pending \<and> dep_blockNumber ?r \<le> head
          then dep_confirmations (map ?g ?t ! i) = ?c \<and>
               (dep_status (map ?g ?t ! i) = Confirmed \<longleftrightarrow>
                  minConfirmations cfg \<le> dep_confirmations (map ?g ?t ! i))
          else map ?g ?t ! i = ?r"
      proof (cases "dep_status ?r = Pending \<and> dep_blockNumber ?r \<le> head")
        case False
        then show ?thesis using i by auto
      next
        case True
        have g: "map ?g ?t ! i = refreshRow cfg head ?now ?r ?r" using i True by simp
        have mem: "?r \<in> set ?t" using i by simp
        then have "sweepAccepts cfg head ?r" using acc True n by (simp add: list_all_iff)
        moreover have "int4 (dep_confirmations ?r)"
          using cols mem by (simp add: list_all_iff deposit_int4_def)
        ultimately have "int4 (NumberOfBigInt ?c)"
          by (auto simp: sweepAccepts_def unchanged_def)
        then have "NumberOfBigInt ?c = ?c" by (rule NumberOfBigInt_int4)
        then have "dep_confirmations (refreshRow cfg head ?now ?r ?r) = ?c \<and>
              (dep_status (refreshRow cfg head ?now ?r ?r) = Confirmed \<longleftrightarrow>
                 minConfirmations cfg \<le> dep_confirmations (refreshRow cfg head ?now ?r ?r))"
          using refreshRow_self [of cfg head ?now ?r] by (simp add: statusFor_def)
        then show ?thesis using True unfolding g by simp
      qed
    qed
    show "length ?t' = length ?t \<and>
      (\<forall>i < length ?t.
         (if dep_status (?t ! i) = Pending \<and> dep_blockNumber (?t ! i) \<le> head
          then dep_confirmations (?t' ! i) = head - dep_blockNumber (?t ! i) + 1 \<and>
               (dep_status (?t' ! i) = Confirmed \<longleftrightarrow> minConfirmations cfg \<le> dep_confirmations (?t' ! i))
          else ?t' ! i = ?t ! i))"
      unfolding tbl by (intro conjI) (rule len, rule rows)
  qed
  have c: "faults w = None \<longrightarrow>
      (fst (upsertDeposit cfg inp w) = Inr () \<longleftrightarrow>
         int4 (chainId cfg) \<and> int4 (in_logIndex inp) \<and> int4 (in_blockNumber inp) \<and>
         int4 (if in_blockNumber inp \<le> in_latestBlock inp
               then in_latestBlock inp - in_blockNumber inp + 1 else 0))"
    by (simp add: upsertDeposit_completes inputAccepted_iff)
  have d: "distinct (map dep_id ?t) \<and> list_all deposit_int4 ?t \<longrightarrow>
      (\<forall>i < length ?t.
         ?t' ! i = ?t ! i \<or>
         dep_status (?t ! i) = Pending \<and> dep_blockNumber (?t ! i) \<le> head \<and>
         dep_confirmations (?t' ! i) = head - dep_blockNumber (?t ! i) + 1 \<and>
         (dep_status (?t' ! i) = Confirmed \<longleftrightarrow> minConfirmations cfg \<le> dep_confirmations (?t' ! i)))"
  proof (intro impI allI)
    fix i assume h: "distinct (map dep_id ?t) \<and> list_all deposit_int4 ?t" and i: "i < length ?t"
    from h have "list_all deposit_int4 ?t" "distinct (map dep_id ?t)" by blast+
    from sweep_rows [OF this, of cfg head, THEN conjunct2, rule_format, OF i]
    show "?t' ! i = ?t ! i \<or>
         dep_status (?t ! i) = Pending \<and> dep_blockNumber (?t ! i) \<le> head \<and>
         dep_confirmations (?t' ! i) = head - dep_blockNumber (?t ! i) + 1 \<and>
         (dep_status (?t' ! i) = Confirmed \<longleftrightarrow> minConfirmations cfg \<le> dep_confirmations (?t' ! i))"
      by (auto simp: statusFor_def split: if_splits)
  qed
  from a1 a2 a3 b c d show ?thesis by blast
qed

section \<open>The ceiling of the stored counts\<close>

text \<open>
  Claim C9. The count that \<open>upsertDeposit\<close> computes is the exact count capped at
  \<open>MAX_SAFE_INTEGER\<close>. On a table as the database holds it (unique ids, \<open>integer\<close>
  columns in range), after \<open>upsertDeposit\<close> and after \<open>refreshPendingConfirmations\<close>,
  whatever the head and whether the call completes or rejects at any awaited call, no
  stored count exceeds \<open>MAX_SAFE_INTEGER\<close>, and every record either is as it was or has the
  exact count \<open>head - block + 1\<close> (0 on first observation with the head behind): the sweep
  has no cap of its own, but a head or a count that does not fit the \<open>integer\<close> column is
  rejected by the database before anything is stored. Once the sweep's select has accepted
  the head, every count the sweep computes is exact and below \<open>MAX_SAFE_INTEGER\<close>.
\<close>

theorem stored_counts_within_ceiling:
  assumes cols: "list_all deposit_int4 (chainDepositsTable w)"
    and ids: "distinct (map dep_id (chainDepositsTable w))"
  shows
   "dep_confirmations (depositRow cfg inp now) =
      min (if in_blockNumber inp \<le> in_latestBlock inp
           then in_latestBlock inp - in_blockNumber inp + 1 else 0) MAX_SAFE_INTEGER \<and>
    (\<forall>r \<in> set (chainDepositsTable (snd (upsertDeposit cfg inp w))).
       deposit_int4 r \<and> dep_confirmations r \<le> MAX_SAFE_INTEGER \<and>
       (r \<in> set (chainDepositsTable w) \<or>
        dep_confirmations r =
          (if in_blockNumber inp \<le> in_latestBlock inp
           then in_latestBlock inp - in_blockNumber inp + 1 else 0))) \<and>
    length (chainDepositsTable (snd (refreshPendingConfirmations cfg head w))) =
      length (chainDepositsTable w) \<and>
    (\<forall>i < length (chainDepositsTable w).
       deposit_int4 (chainDepositsTable (snd (refreshPendingConfirmations cfg head w)) ! i) \<and>
       dep_confirmations (chainDepositsTable (snd (refreshPendingConfirmations cfg head w)) ! i)
         \<le> MAX_SAFE_INTEGER \<and>
       (chainDepositsTable (snd (refreshPendingConfirmations cfg head w)) ! i = chainDepositsTable w ! i \<or>
        dep_confirmations (chainDepositsTable (snd (refreshPendingConfirmations cfg head w)) ! i) =
          head - dep_blockNumber (chainDepositsTable w ! i) + 1)) \<and>
    (int4 (NumberOfBigInt head) \<longrightarrow>
       (\<forall>r \<in> set (chainDepositsTable w).
          NumberOfBigInt (head - dep_blockNumber r + 1) = head - dep_blockNumber r + 1 \<and>
          head - dep_blockNumber r + 1 \<le> MAX_SAFE_INTEGER))"
proof -
  let ?t = "chainDepositsTable w"
  let ?u = "chainDepositsTable (snd (upsertDeposit cfg inp w))"
  let ?t' = "chainDepositsTable (snd (refreshPendingConfirmations cfg head w))"
  let ?count = "if in_blockNumber inp \<le> in_latestBlock inp
           then in_latestBlock inp - in_blockNumber inp + 1 else 0"
  have old: "\<And>r. r \<in> set ?t \<Longrightarrow> deposit_int4 r" using cols by (simp add: list_all_iff)
  have a: "dep_confirmations (depositRow cfg inp now) = min ?count MAX_SAFE_INTEGER"
    by (simp add: upsertConfirmations_eq confirmationsBigInt_def)
  have b: "\<forall>r \<in> set ?u. deposit_int4 r \<and> dep_confirmations r \<le> MAX_SAFE_INTEGER \<and>
       (r \<in> set ?t \<or> dep_confirmations r = ?count)"
  proof
    fix r assume r: "r \<in> set ?u"
    have "deposit_int4 r \<and> (r \<in> set ?t \<or> dep_confirmations r = ?count)"
      using upsertDeposit_table [of cfg inp w]
    proof
      assume "?u = ?t \<and> fst (upsertDeposit cfg inp w) = Inl IoError"
      with r old show ?thesis by simp
    next
      assume "inputAccepted cfg inp \<and> fst (upsertDeposit cfg inp w) = Inr () \<and>
        (\<exists>now. ?u = onConflictDoUpdate (depositRow cfg inp now) ?t)"
      then obtain now' where ok: "inputAccepted cfg inp"
        and u: "?u = onConflictDoUpdate (depositRow cfg inp now') ?t" by blast
      from ok have c4: "int4 (upsertConfirmations inp)" by (simp add: inputAccepted_def)
      then have c: "upsertConfirmations inp = ?count" by (rule upsertConfirmations_int4)
      from r have "r \<in> set (onConflictDoUpdate (depositRow cfg inp now') ?t)" by (simp only: u)
      from onConflict_rows [OF this] show ?thesis
      proof (elim disjE bexE)
        assume "r \<in> set ?t"
        with old show ?thesis by simp
      next
        assume "r = depositRow cfg inp now'"
        then show ?thesis using ok c by simp
      next
        fix r0 assume r0: "r0 \<in> set ?t"
          and "r = r0\<lparr>dep_confirmations := dep_confirmations (depositRow cfg inp now'),
                 dep_status := dep_status (depositRow cfg inp now'),
                 dep_updatedAt := dep_updatedAt (depositRow cfg inp now')\<rparr>"
        then show ?thesis using old [OF r0] c4 c by (simp add: deposit_int4_def)
      qed
    qed
    then show "deposit_int4 r \<and> dep_confirmations r \<le> MAX_SAFE_INTEGER \<and>
       (r \<in> set ?t \<or> dep_confirmations r = ?count)"
      by (auto simp: deposit_int4_def intro: int4_ceiling)
  qed
  note rows = sweep_rows [OF cols ids, of cfg head]
  from rows have c: "length ?t' = length ?t"
    and d: "\<forall>i < length ?t. deposit_int4 (?t' ! i) \<and> dep_confirmations (?t' ! i) \<le> MAX_SAFE_INTEGER \<and>
       (?t' ! i = ?t ! i \<or> dep_confirmations (?t' ! i) = head - dep_blockNumber (?t ! i) + 1)"
    by (auto simp: deposit_int4_def intro: int4_ceiling)
  have e: "int4 (NumberOfBigInt head) \<longrightarrow>
       (\<forall>r \<in> set ?t.
          NumberOfBigInt (head - dep_blockNumber r + 1) = head - dep_blockNumber r + 1 \<and>
          head - dep_blockNumber r + 1 \<le> MAX_SAFE_INTEGER)"
  proof (intro impI ballI)
    fix r assume "int4 (NumberOfBigInt head)" and r: "r \<in> set ?t"
    then have h: "int4 head" by (simp add: int4_NumberOfBigInt)
    from old [OF r] have b: "int4 (dep_blockNumber r)" by (simp add: deposit_int4_def)
    from h b have "- MAX_SAFE_INTEGER \<le> head - dep_blockNumber r + 1"
      and le: "head - dep_blockNumber r + 1 \<le> MAX_SAFE_INTEGER"
      by (simp_all add: int4_def MAX_SAFE_INTEGER_def)
    then show "NumberOfBigInt (head - dep_blockNumber r + 1) = head - dep_blockNumber r + 1 \<and>
          head - dep_blockNumber r + 1 \<le> MAX_SAFE_INTEGER"
      by (simp add: NumberOfBigInt_exact_abs)
  qed
  from a b c d e show ?thesis by blast
qed

section \<open>Runs on concrete inputs\<close>

lemmas example_defs2 = example_defs depositAt_def worldWith_def exampleLog_def exampleNode_def

lemma NumberOfBigInt_numeral [simp]:
  "(numeral n :: int) \<le> 9007199254740991 \<Longrightarrow> NumberOfBigInt (numeral n) = numeral n"
  by (rule NumberOfBigInt_exact) (simp_all add: MAX_SAFE_INTEGER_def)

lemma NumberOfBigInt_small [simp]: "NumberOfBigInt 0 = 0" "NumberOfBigInt 1 = 1"
  by (simp_all add: NumberOfBigInt_exact MAX_SAFE_INTEGER_def)

text \<open>
  Two departures from the formula. The count of a first observation is capped: at observed
  block 0 and head \<open>2 ^ 53\<close> the count that \<open>upsertDeposit\<close> computes is \<open>2 ^ 53 - 1\<close>, not
  \<open>head - observed + 1\<close> (it does not fit the \<open>integer\<close> column: the insert is rejected and
  nothing is stored). And the sweep computes no count for a record above the head: after
  \<open>refreshPendingConfirmations\<close> with head 99, a pending record at block 100 still has the
  count 1 it had, not 0.
\<close>

theorem clamp_breaks_formula:
  "in_blockNumber (exampleInput 0 (2 ^ 53)) \<le> in_latestBlock (exampleInput 0 (2 ^ 53)) \<and>
   in_latestBlock (exampleInput 0 (2 ^ 53)) - in_blockNumber (exampleInput 0 (2 ^ 53)) + 1 = 2 ^ 53 + 1 \<and>
   dep_confirmations (depositRow exampleConfig (exampleInput 0 (2 ^ 53)) ''2026-01-01T00:00:00.000Z'') =
     2 ^ 53 - 1 \<and>
   fst (upsertDeposit exampleConfig (exampleInput 0 (2 ^ 53)) freshWorld) = Inl IoError \<and>
   chainDepositsTable (snd (upsertDeposit exampleConfig (exampleInput 0 (2 ^ 53)) freshWorld)) = [] \<and>
   map dep_blockNumber (chainDepositsTable (worldWith [depositAt 100 1 Pending])) = [100] \<and>
   fst (refreshPendingConfirmations exampleConfig 99 (worldWith [depositAt 100 1 Pending])) = Inr () \<and>
   map dep_confirmations (chainDepositsTable (snd (refreshPendingConfirmations exampleConfig 99
      (worldWith [depositAt 100 1 Pending])))) = [1]"
proof -
  have c: "upsertConfirmations (exampleInput 0 (2 ^ 53)) = 2 ^ 53 - 1"
    by (simp add: upsertConfirmations_eq confirmationsBigInt_def MAX_SAFE_INTEGER_def exampleInput_def)
  then have "\<not> inputAccepted exampleConfig (exampleInput 0 (2 ^ 53))"
    by (simp add: inputAccepted_def int4_def)
  from upsertDeposit_rejected [OF this, of freshWorld] c
  have first: "dep_confirmations (depositRow exampleConfig (exampleInput 0 (2 ^ 53))
      ''2026-01-01T00:00:00.000Z'') = 2 ^ 53 - 1 \<and>
    fst (upsertDeposit exampleConfig (exampleInput 0 (2 ^ 53)) freshWorld) = Inl IoError \<and>
    chainDepositsTable (snd (upsertDeposit exampleConfig (exampleInput 0 (2 ^ 53)) freshWorld)) = []"
    by (simp add: freshWorld_def)
  have sweep: "map dep_blockNumber (chainDepositsTable (worldWith [depositAt 100 1 Pending])) = [100] \<and>
    fst (refreshPendingConfirmations exampleConfig 99 (worldWith [depositAt 100 1 Pending])) = Inr () \<and>
    map dep_confirmations (chainDepositsTable (snd (refreshPendingConfirmations exampleConfig 99
      (worldWith [depositAt 100 1 Pending])))) = [1]"
    by (simp add: run_defs worker_defs example_defs2 Let_def)
  from first sweep show ?thesis by (simp add: exampleInput_def)
qed

theorem confirmation_policy_witness:
  "faults (worldWith [depositAt 100 1 Pending]) = None \<and>
   distinct (map dep_id (chainDepositsTable (worldWith [depositAt 100 1 Pending]))) \<and>
   list_all deposit_int4 (chainDepositsTable (worldWith [depositAt 100 1 Pending])) \<and>
   fst (refreshPendingConfirmations exampleConfig 101 (worldWith [depositAt 100 1 Pending])) = Inr () \<and>
   dep_status (chainDepositsTable (worldWith [depositAt 100 1 Pending]) ! 0) = Pending \<and>
   dep_blockNumber (chainDepositsTable (worldWith [depositAt 100 1 Pending]) ! 0) \<le> 101 \<and>
   dep_confirmations (chainDepositsTable (snd (refreshPendingConfirmations exampleConfig 101
      (worldWith [depositAt 100 1 Pending]))) ! 0) = 2 \<and>
   dep_status (chainDepositsTable (snd (refreshPendingConfirmations exampleConfig 101
      (worldWith [depositAt 100 1 Pending]))) ! 0) = Confirmed \<and>
   fst (upsertDeposit exampleConfig (exampleInput 100 100) (worldWith [depositAt 100 1 Pending])) = Inr () \<and>
   depKey (chainDepositsTable (snd (upsertDeposit exampleConfig (exampleInput 100 100)
      (worldWith [depositAt 100 1 Pending]))) ! 0) = inputKey (exampleInput 100 100) \<and>
   dep_confirmations (chainDepositsTable (snd (upsertDeposit exampleConfig (exampleInput 100 100)
      (worldWith [depositAt 100 1 Pending]))) ! 0) = 1 \<and>
   dep_status (chainDepositsTable (snd (upsertDeposit exampleConfig (exampleInput 100 100)
      (worldWith [depositAt 100 1 Pending]))) ! 0) = Pending"
proof -
  let ?w = "worldWith [depositAt 100 1 Pending]"
  have f: "faults ?w = None" by (simp add: example_defs2)
  have d: "distinct (map dep_id (chainDepositsTable ?w))" by (simp add: example_defs2)
  have cols: "list_all deposit_int4 (chainDepositsTable ?w)"
    by (simp add: example_defs2 deposit_int4_def int4_def)
  have fin: "fst (refreshPendingConfirmations exampleConfig 101 ?w) = Inr ()"
    by (simp add: run_defs worker_defs example_defs2 Let_def)
  have r0: "dep_status (chainDepositsTable ?w ! 0) = Pending"
    "dep_blockNumber (chainDepositsTable ?w ! 0) = 100" "length (chainDepositsTable ?w) = 1"
    by (simp_all add: example_defs2)
  note p = confirmation_policy [of exampleConfig "exampleInput 100 100" "[]" ?w 101]
  have h: "faults ?w = None \<and> distinct (map dep_id (chainDepositsTable ?w)) \<and>
    list_all deposit_int4 (chainDepositsTable ?w) \<and>
    fst (refreshPendingConfirmations exampleConfig 101 ?w) = Inr ()"
    using f d cols fin by blast
  note sweep = mp [OF p [THEN conjunct2, THEN conjunct2, THEN conjunct2, THEN conjunct1] h]
  note row = sweep [THEN conjunct2, rule_format, of 0]
  have "0 < length (chainDepositsTable ?w)" using r0(3) by simp
  from row [OF this] r0(1,2) have swept:
    "dep_confirmations (chainDepositsTable (snd (refreshPendingConfirmations exampleConfig 101 ?w)) ! 0) = 2 \<and>
     dep_status (chainDepositsTable (snd (refreshPendingConfirmations exampleConfig 101 ?w)) ! 0) = Confirmed"
    by (simp add: exampleConfig_def)
  let ?t = "chainDepositsTable (snd (upsertDeposit exampleConfig (exampleInput 100 100) ?w))"
  have up: "fst (upsertDeposit exampleConfig (exampleInput 100 100) ?w) = Inr ()"
    by (simp add: run_defs worker_defs example_defs2 Let_def upsertConfirmations_def MAX_SAFE_INTEGER_def)
  note seen = mp [OF p [THEN conjunct2, THEN conjunct2, THEN conjunct1] up, THEN conjunct2, rule_format]
  have len: "length ?t = 1" and k: "depKey (?t ! 0) = inputKey (exampleInput 100 100)"
    by (simp_all add: run_defs worker_defs example_defs2 depKey_def inputKey_def Let_def
        upsertConfirmations_def MAX_SAFE_INTEGER_def)
  from len have r: "?t ! 0 \<in> set ?t" by simp
  from seen [OF r k] have c: "dep_confirmations (?t ! 0) = 1"
    and s: "dep_status (?t ! 0) = Confirmed \<longleftrightarrow> minConfirmations exampleConfig \<le> dep_confirmations (?t ! 0)"
    by (simp_all add: exampleInput_def)
  from s c have "dep_status (?t ! 0) \<noteq> Confirmed" by (simp add: exampleConfig_def)
  then have "dep_status (?t ! 0) = Pending" by (cases "dep_status (?t ! 0)") simp_all
  with c k have first: "depKey (?t ! 0) = inputKey (exampleInput 100 100) \<and>
    dep_confirmations (?t ! 0) = 1 \<and> dep_status (?t ! 0) = Pending" by simp
  from swept first f d cols fin up r0 show ?thesis by simp
qed

theorem stored_counts_within_ceiling_witness:
  "list_all deposit_int4 (chainDepositsTable (worldWith [depositAt 100 1 Pending])) \<and>
   distinct (map dep_id (chainDepositsTable (worldWith [depositAt 100 1 Pending]))) \<and>
   dep_confirmations (depositRow exampleConfig (exampleInput 100 (2 ^ 60)) ''2026-01-01T00:00:00.000Z'') =
     MAX_SAFE_INTEGER \<and>
   map dep_confirmations (chainDepositsTable (snd (upsertDeposit exampleConfig (exampleInput 100 (2 ^ 60))
      (worldWith [depositAt 100 1 Pending])))) = [1] \<and>
   map dep_confirmations (chainDepositsTable (snd (refreshPendingConfirmations exampleConfig (2 ^ 60)
      (worldWith [depositAt 100 1 Pending])))) = [1] \<and>
   dep_confirmations (chainDepositsTable (snd (refreshPendingConfirmations exampleConfig 2147483647
      (worldWith [depositAt 100 1 Pending]))) ! 0) = 2147483548 \<and>
   dep_confirmations (chainDepositsTable (snd (refreshPendingConfirmations exampleConfig 2147483647
      (worldWith [depositAt 100 1 Pending]))) ! 0) \<le> MAX_SAFE_INTEGER"
proof -
  let ?w = "worldWith [depositAt 100 1 Pending]"
  have cols: "list_all deposit_int4 (chainDepositsTable ?w)"
    by (simp add: example_defs2 deposit_int4_def int4_def)
  have d: "distinct (map dep_id (chainDepositsTable ?w))" by (simp add: example_defs2)
  note far = stored_counts_within_ceiling [OF cols d, of exampleConfig "exampleInput 100 (2 ^ 60)"
      "''2026-01-01T00:00:00.000Z''" "2 ^ 60"]
  note near = stored_counts_within_ceiling [OF cols d, of exampleConfig "exampleInput 100 (2 ^ 60)"
      "''2026-01-01T00:00:00.000Z''" 2147483647]
  have computed: "dep_confirmations (depositRow exampleConfig (exampleInput 100 (2 ^ 60))
      ''2026-01-01T00:00:00.000Z'') = MAX_SAFE_INTEGER"
    using far [THEN conjunct1] by (simp add: exampleInput_def MAX_SAFE_INTEGER_def)
  then have "\<not> inputAccepted exampleConfig (exampleInput 100 (2 ^ 60))"
    by (simp add: inputAccepted_def int4_def MAX_SAFE_INTEGER_def)
  from upsertDeposit_rejected [OF this, of ?w]
  have first: "map dep_confirmations (chainDepositsTable (snd (upsertDeposit exampleConfig
      (exampleInput 100 (2 ^ 60)) ?w))) = [1]"
    by (simp add: example_defs2)
  have "\<not> int4 (NumberOfBigInt (2 ^ 60))"
    using NumberOfBigInt_int4 [of "2 ^ 60"] by (auto simp: int4_def)
  then have "refreshPendingConfirmations exampleConfig (2 ^ 60) ?w = (Inl IoError, ?w)"
    by (simp add: refreshPendingConfirmations_def io_bind_def selectPendingDeposits_def awaitIf_rejected)
  then have sweep_far: "map dep_confirmations (chainDepositsTable (snd (refreshPendingConfirmations
      exampleConfig (2 ^ 60) ?w))) = [1]"
    by (simp add: example_defs2)
  have len: "0 < length (chainDepositsTable ?w)" by (simp add: example_defs2)
  have stored: "dep_confirmations (chainDepositsTable (snd (refreshPendingConfirmations exampleConfig
      2147483647 ?w)) ! 0) = 2147483548"
    by (simp add: run_defs worker_defs example_defs2 Let_def)
  from near [THEN conjunct2, THEN conjunct2, THEN conjunct2, THEN conjunct1, rule_format, OF len]
  have "dep_confirmations (chainDepositsTable (snd (refreshPendingConfirmations exampleConfig
      2147483647 ?w)) ! 0) \<le> MAX_SAFE_INTEGER" by blast
  with cols d computed first sweep_far stored show ?thesis by blast
qed


text \<open>
  Claim C5, evaluated on the code. The minimum is 2 and the cursor is at 90. In a first
  cycle the head is 100 and the log at block 99 is recorded as confirmed (2 confirmations);
  the cursor write then rejects, so the cursor stays at 90. The next cycle reaches a node
  whose head is 99: the range from 91 is scanned again, the log at block 99 is observed
  again, and the conflict update of \<open>upsertDeposit\<close> writes 1 confirmation and pending over
  the confirmed record. The sweep, for its part, selects pending records only and never
  touches a confirmed one.
\<close>

theorem rescan_reverts_confirmed:
  "map dep_status (chainDepositsTable interruptedCycle) = [Confirmed] \<and>
   map dep_confirmations (chainDepositsTable interruptedCycle) = [2] \<and>
   cursorOf exampleConfig interruptedCycle = Some 90 \<and>
   map depKey (chainDepositsTable laggingCycle) = map depKey (chainDepositsTable interruptedCycle) \<and>
   map dep_status (chainDepositsTable laggingCycle) = [Pending] \<and>
   map dep_confirmations (chainDepositsTable laggingCycle) = [1] \<and>
   cursorOf exampleConfig laggingCycle = Some 99"
proof -
  have 1: "interruptedCycle =
    (cursorAt 90)\<lparr>faults := Some 0, clockReads := 2, chainDepositsTable := [depositAt 99 2 Confirmed]\<rparr>"
    by (simp add: interruptedCycle_def run_defs worker_defs example_defs2 Let_def
        upsertConfirmations_def MAX_SAFE_INTEGER_def)
  have 2: "map dep_status (chainDepositsTable laggingCycle) = [Pending] \<and>
    map dep_confirmations (chainDepositsTable laggingCycle) = [1] \<and>
    map depKey (chainDepositsTable laggingCycle) = [(''0xabc'', 0)] \<and>
    cursorOf exampleConfig laggingCycle = Some 99"
    unfolding laggingCycle_def 1
    by (simp add: run_defs worker_defs example_defs2 Let_def cursorOf_def depKey_def
        upsertConfirmations_def MAX_SAFE_INTEGER_def)
  from 2 show ?thesis unfolding 1
    by (simp add: example_defs2 cursorOf_def WORKER_CURSOR_KEY_def depKey_def)
qed

theorem replay_same_witness:
  "faults freshWorld = None \<and> distinct (map depKey (chainDepositsTable freshWorld)) \<and>
   list_all (inputAccepted exampleConfig) [exampleInput 100 101, exampleInput 100 102] \<and>
   fst (io_foreach (upsertDeposit exampleConfig) [exampleInput 100 101, exampleInput 100 102]
      freshWorld) = Inr () \<and>
   map dep_confirmations (chainDepositsTable (snd (io_foreach (upsertDeposit exampleConfig)
      [exampleInput 100 101, exampleInput 100 102] freshWorld))) = [3] \<and>
   list_all2 sameButUpdatedAt
      (chainDepositsTable (snd (io_foreach (upsertDeposit exampleConfig)
         [exampleInput 100 101, exampleInput 100 102] freshWorld)))
      (chainDepositsTable (snd (io_foreach (upsertDeposit exampleConfig)
         [exampleInput 100 101, exampleInput 100 102]
         (snd (io_foreach (upsertDeposit exampleConfig)
            [exampleInput 100 101, exampleInput 100 102] freshWorld))))) \<and>
   distinct (map depKey (chainDepositsTable (snd (io_foreach (upsertDeposit exampleConfig)
         [exampleInput 100 101, exampleInput 100 102]
         (snd (io_foreach (upsertDeposit exampleConfig)
            [exampleInput 100 101, exampleInput 100 102] freshWorld))))))"
proof -
  let ?batch = "[exampleInput 100 101, exampleInput 100 102]"
  have f: "faults freshWorld = None" by (simp add: freshWorld_def)
  have d: "distinct (map depKey (chainDepositsTable freshWorld))" by (simp add: freshWorld_def)
  have a: "list_all (inputAccepted exampleConfig) ?batch"
    by (simp add: inputAccepted_def int4_def exampleInput_def exampleConfig_def
        upsertConfirmations_eq confirmationsBigInt_def MAX_SAFE_INTEGER_def)
  have c: "map dep_confirmations (chainDepositsTable (snd (io_foreach (upsertDeposit exampleConfig)
      ?batch freshWorld))) = [3]"
    by (simp add: run_defs worker_defs example_defs2 Let_def upsertConfirmations_def
        MAX_SAFE_INTEGER_def)
  from replay_same [OF f, of exampleConfig ?batch] f d a c
  show ?thesis by blast
qed

section \<open>Payments on concrete inputs\<close>

lemmas server_defs = handleUsdtPayment_def handleStripeEvent_def settleStripe_def grantCredits_def
  updateUserCreditsReturning_def addCredits_def insertCreditLedger_def selectPaymentByProviderId_def
  insertPayment_def updatePaymentById_def setPayment_def shortId_def derivedCreditsOf_def
  isPaymentSettled_def paymentStatusOf_def awaitIf_def int4_def payment_int4_def ledger_int4_def

lemmas server_examples = freshWorld_def exampleEnv_def exampleUser_def serverWorld_def
  examplePayload_def

text \<open>
  Claim C8, evaluated on the code. \<open>grantCredits\<close> runs its two statements one after the
  other, outside any transaction. When the ledger insert rejects, the balance has already
  been raised: from a user with balance 0 and an empty ledger, the call ends with the error,
  the balance is 50 and the ledger is still empty.
\<close>

theorem grant_not_atomic:
  "fst (grantCredits
      \<lparr>gi_userId = ''usr_1'', gi_deltaCredits = 50, gi_reason = ''payment_usdt_confirmed'',
       gi_referenceId = Some ''usdt_tx1'', gi_metadataJson = None\<rparr>
      (serverWorld\<lparr>faults := Some 1\<rparr>)) = Inl IoError \<and>
   map apiCredits (usersTable (serverWorld\<lparr>faults := Some 1\<rparr>)) = [0] \<and>
   creditLedgerTable (serverWorld\<lparr>faults := Some 1\<rparr>) = [] \<and>
   map apiCredits (usersTable (snd (grantCredits
      \<lparr>gi_userId = ''usr_1'', gi_deltaCredits = 50, gi_reason = ''payment_usdt_confirmed'',
       gi_referenceId = Some ''usdt_tx1'', gi_metadataJson = None\<rparr>
      (serverWorld\<lparr>faults := Some 1\<rparr>)))) = [50] \<and>
   creditLedgerTable (snd (grantCredits
      \<lparr>gi_userId = ''usr_1'', gi_deltaCredits = 50, gi_reason = ''payment_usdt_confirmed'',
       gi_referenceId = Some ''usdt_tx1'', gi_metadataJson = None\<rparr>
      (serverWorld\<lparr>faults := Some 1\<rparr>))) = []"
  by (simp add: run_defs server_defs server_examples)

text \<open>
  Claim C2, evaluated on the code. Two webhooks for the same transaction, the first pending,
  the second confirmed with the required confirmations: the first inserts the payment
  record as pending; the second finds it, sets its status to succeeded and returns before
  the grant. The ledger stays empty and the balance stays 0, where the claim expects one
  grant of 5 credits.
\<close>

theorem pending_then_confirmed_grants_nothing:
  "creditLedgerTable (deliverAll exampleEnv
      [(UsdtWebhook (examplePayload StatusPending 0 500), None),
       (UsdtWebhook (examplePayload StatusConfirmed 2 500), None)] serverWorld) = [] \<and>
   map apiCredits (usersTable (deliverAll exampleEnv
      [(UsdtWebhook (examplePayload StatusPending 0 500), None),
       (UsdtWebhook (examplePayload StatusConfirmed 2 500), None)] serverWorld)) = [0] \<and>
   map pay_status (paymentsTable (deliverAll exampleEnv
      [(UsdtWebhook (examplePayload StatusPending 0 500), None),
       (UsdtWebhook (examplePayload StatusConfirmed 2 500), None)] serverWorld)) = [Succeeded] \<and>
   map creditsPurchased (paymentsTable (deliverAll exampleEnv
      [(UsdtWebhook (examplePayload StatusPending 0 500), None),
       (UsdtWebhook (examplePayload StatusConfirmed 2 500), None)] serverWorld)) = [5]"
  by (simp add: run_defs server_defs server_examples Let_def)


theorem at_most_one_grant_witness:
  "ledgerInv serverWorld \<and>
   refCount ''usdt_tx1'' (creditLedgerTable (deliverAll exampleEnv
      [(UsdtWebhook (examplePayload StatusConfirmed 2 500), None),
       (UsdtWebhook (examplePayload StatusConfirmed 2 500), Some 1),
       (UsdtWebhook (examplePayload StatusConfirmed 3 500), None)] serverWorld)) \<le> 1 \<and>
   map deltaCredits (creditLedgerTable (deliverAll exampleEnv
      [(UsdtWebhook (examplePayload StatusConfirmed 2 500), None),
       (UsdtWebhook (examplePayload StatusConfirmed 2 500), Some 1),
       (UsdtWebhook (examplePayload StatusConfirmed 3 500), None)] serverWorld)) = [5]"
proof -
  have i: "ledgerInv serverWorld" by (simp add: ledgerInv_def server_examples)
  have "map deltaCredits (creditLedgerTable (deliverAll exampleEnv
      [(UsdtWebhook (examplePayload StatusConfirmed 2 500), None),
       (UsdtWebhook (examplePayload StatusConfirmed 2 500), Some 1),
       (UsdtWebhook (examplePayload StatusConfirmed 3 500), None)] serverWorld)) = [5]"
    by (simp add: run_defs server_defs server_examples Let_def)
  with at_most_one_grant [OF i, of "''usdt_tx1''" exampleEnv] i show ?thesis by blast
qed

section \<open>The stablecoin webhook\<close>

lemma find_setPayment:
  "find (\<lambda>p. pay_providerPaymentId p = x) (map (setPayment i s raw now) t) =
     map_option (setPayment i s raw now) (find (\<lambda>p. pay_providerPaymentId p = x) t)"
  by (induction t) simp_all

lemma bind_await_ok:
  "faults w = None \<Longrightarrow> io_bind (await stmt) f w = f (fst (stmt w)) (snd (stmt w))"
  by (simp add: io_bind_def await_ok)



lemma handleUsdtPayment_existing:
  assumes "faults w = None"
    and "find (\<lambda>p. pay_providerPaymentId p = ''usdt_'' @ transactionId payload) (paymentsTable w) = Some existing"
  shows "handleUsdtPayment env payload w =
    (Inr (), w\<lparr>clockReads := Suc (clockReads w),
               paymentsTable := map (setPayment (pay_id existing) (paymentStatusOf env payload)
                 (JsonUsdt payload) (clock w (clockReads w))) (paymentsTable w)\<rparr>)"
  using assms
  by (simp add: handleUsdtPayment_def Let_def getIsoTimestamp_def bind_await_ok await_ok
      selectPaymentByProviderId_def updatePaymentById_def)

text \<open>
  Claim C10. When a payment record with the canonical id exists and no call rejects,
  \<open>handleUsdtPayment\<close> rewrites the status, \<open>rawPayloadJson\<close> and \<open>updatedAt\<close> of the
  records that have the found record's id, and nothing else: every other column and every
  other record keeps its value, no record is inserted, the ledger and the users are
  unchanged. The status written is the one the new payload implies, so a pending payload
  replayed over a succeeded record sets it back to pending.
\<close>

theorem existing_payment_frame:
  assumes "faults w = None"
    and "find (\<lambda>p. pay_providerPaymentId p = ''usdt_'' @ transactionId payload) (paymentsTable w) = Some existing"
  shows "fst (handleUsdtPayment env payload w) = Inr () \<and>
    paymentsTable (snd (handleUsdtPayment env payload w)) =
      map (\<lambda>p. if pay_id p = pay_id existing
                then p\<lparr>pay_status := paymentStatusOf env payload,
                       rawPayloadJson := JsonUsdt payload,
                       pay_updatedAt := clock w (clockReads w)\<rparr>
                else p) (paymentsTable w) \<and>
    find (\<lambda>p. pay_providerPaymentId p = ''usdt_'' @ transactionId payload)
      (paymentsTable (snd (handleUsdtPayment env payload w))) =
      Some (existing\<lparr>pay_status := paymentStatusOf env payload,
                     rawPayloadJson := JsonUsdt payload,
                     pay_updatedAt := clock w (clockReads w)\<rparr>) \<and>
    creditLedgerTable (snd (handleUsdtPayment env payload w)) = creditLedgerTable w \<and>
    usersTable (snd (handleUsdtPayment env payload w)) = usersTable w"
proof -
  note run = handleUsdtPayment_existing [OF assms, of env]
  let ?set = "setPayment (pay_id existing) (paymentStatusOf env payload) (JsonUsdt payload)
        (clock w (clockReads w))"
  have tbl: "paymentsTable (snd (handleUsdtPayment env payload w)) = map ?set (paymentsTable w)"
    by (simp add: run)
  have 1: "fst (handleUsdtPayment env payload w) = Inr ()" by (simp add: run)
  have 2: "map ?set (paymentsTable w) =
      map (\<lambda>p. if pay_id p = pay_id existing
                then p\<lparr>pay_status := paymentStatusOf env payload,
                       rawPayloadJson := JsonUsdt payload,
                       pay_updatedAt := clock w (clockReads w)\<rparr>
                else p) (paymentsTable w)"
    by (simp add: setPayment_def [abs_def])
  have "find (\<lambda>p. pay_providerPaymentId p = ''usdt_'' @ transactionId payload)
      (map ?set (paymentsTable w)) = Some (?set existing)"
    using assms(2) by (simp only: find_setPayment option.map)
  then have 3: "find (\<lambda>p. pay_providerPaymentId p = ''usdt_'' @ transactionId payload)
      (map ?set (paymentsTable w)) =
      Some (existing\<lparr>pay_status := paymentStatusOf env payload,
                     rawPayloadJson := JsonUsdt payload,
                     pay_updatedAt := clock w (clockReads w)\<rparr>)"
    by (simp add: setPayment_def)
  have 4: "creditLedgerTable (snd (handleUsdtPayment env payload w)) = creditLedgerTable w"
    "usersTable (snd (handleUsdtPayment env payload w)) = usersTable w"
    by (simp_all add: run)
  from 1 2 3 4 show ?thesis unfolding tbl by simp
qed

theorem existing_payment_frame_witness:
  "faults paidWorld = None \<and>
   find (\<lambda>p. pay_providerPaymentId p = ''usdt_'' @ transactionId (examplePayload StatusPending 0 900))
     (paymentsTable paidWorld) = Some succeededPayment \<and>
   fst (handleUsdtPayment exampleEnv (examplePayload StatusPending 0 900) paidWorld) = Inr () \<and>
   paymentsTable (snd (handleUsdtPayment exampleEnv (examplePayload StatusPending 0 900) paidWorld)) =
     [succeededPayment\<lparr>pay_status := PaymentPending,
        rawPayloadJson := JsonUsdt (examplePayload StatusPending 0 900),
        pay_updatedAt := clock paidWorld (clockReads paidWorld)\<rparr>] \<and>
   creditLedgerTable (snd (handleUsdtPayment exampleEnv (examplePayload StatusPending 0 900) paidWorld)) =
     creditLedgerTable paidWorld \<and>
   usersTable (snd (handleUsdtPayment exampleEnv (examplePayload StatusPending 0 900) paidWorld)) =
     usersTable paidWorld"
proof -
  have f: "faults paidWorld = None" by (simp add: paidWorld_def server_examples)
  have e: "find (\<lambda>p. pay_providerPaymentId p = ''usdt_'' @ transactionId (examplePayload StatusPending 0 900))
     (paymentsTable paidWorld) = Some succeededPayment"
    by (simp add: paidWorld_def succeededPayment_def server_examples)
  have s: "paymentStatusOf exampleEnv (examplePayload StatusPending 0 900) = PaymentPending"
    by (simp add: paymentStatusOf_def isPaymentSettled_def server_examples)
  have t: "paymentsTable paidWorld = [succeededPayment]" by (simp add: paidWorld_def)
  from existing_payment_frame [OF f e, of exampleEnv] f e show ?thesis
    by (simp add: s t)
qed

section \<open>When the stablecoin webhook grants\<close>

lemma user_id_addCredits [simp]: "user_id (addCredits uid d now u) = user_id u"
  by (simp add: addCredits_def)










end
